theory Spec2Isabelle
  imports Complex_Main "HOL-Library.AList" "HOL-Library.Multiset"
begin

section \<open>Python values, exceptions and dictionaries\<close>

text \<open>
  The agent handles JSON-like Python values: messages, tool arguments, tool results and
  hook payloads are dictionaries with string keys. A dictionary is an association list in
  insertion order; \<open>map_of\<close> reads it and \<open>AList.update\<close> writes it (a key that is
  already present keeps its position and gets the new value, a new key goes to the end, as
  in Python). A float is carried as the rational number it denotes.
\<close>

datatype pyval =
    PNone
  | PBool bool
  | PInt int
  | PFloat rat
  | PStr string
  | PList "pyval list"
  | PDict "(string \<times> pyval) list"

type_synonym pydict = "(string \<times> pyval) list"

text \<open>
  What a Python computation raises, with its class name and the text \<open>str(e)\<close> gives.
  \<open>Exn\<close> is an instance of (a subclass of) \<open>Exception\<close>; \<open>Signal\<close> is an instance of a class
  that derives from \<open>BaseException\<close> only, such as \<open>asyncio.CancelledError\<close>.
  \<open>except Exception\<close> and \<open>isinstance(r, Exception)\<close> hold for the first kind and not for
  the second. (\<open>KeyboardInterrupt\<close> and \<open>SystemExit\<close>, which stop the event loop itself, are
  not modelled.) The wording of the interpreter's own messages is abbreviated.
\<close>

datatype exn =
    Exn (exn_class: string) (exn_str: string)
  | Signal (exn_class: string) (exn_str: string)

fun is_exception :: "exn \<Rightarrow> bool" where
  "is_exception (Exn c s) = True"
| "is_exception (Signal c s) = False"

text \<open>Truthiness, as \<open>if x:\<close> and \<open>not x\<close> test it.\<close>

fun truthy :: "pyval \<Rightarrow> bool" where
  "truthy PNone = False"
| "truthy (PBool b) = b"
| "truthy (PInt i) = (i \<noteq> 0)"
| "truthy (PFloat r) = (r \<noteq> 0)"
| "truthy (PStr s) = (s \<noteq> [])"
| "truthy (PList xs) = (xs \<noteq> [])"
| "truthy (PDict kvs) = (kvs \<noteq> [])"

text \<open>\<open>isinstance(v, int)\<close>: \<open>bool\<close> is a subclass of \<open>int\<close>, \<open>float\<close> is not.\<close>

fun is_int :: "pyval \<Rightarrow> bool" where
  "is_int (PInt i) = True"
| "is_int (PBool b) = True"
| "is_int v = False"

definition quote :: "string \<Rightarrow> string" where
  "quote s = CHR 0x27 # s @ [CHR 0x27]"

text \<open>\<open>v[k]\<close> with a string key: \<open>KeyError\<close> on a dictionary without the key,
  \<open>TypeError\<close> on a value that is not a dictionary.\<close>

fun subscript :: "pyval \<Rightarrow> string \<Rightarrow> exn + pyval" where
  "subscript (PDict kvs) k =
     (case map_of kvs k of
        Some v \<Rightarrow> Inr v
      | None \<Rightarrow> Inl (Exn ''KeyError'' (quote k)))"
| "subscript v k = Inl (Exn ''TypeError'' ''object is not subscriptable with a string key'')"

text \<open>\<open>{**arguments}\<close>: the pairs are inserted in order; a value that is not a mapping
  raises \<open>TypeError\<close>.\<close>

fun dict_unpack :: "pyval \<Rightarrow> exn + pydict" where
  "dict_unpack (PDict kvs) = Inr (fold (\<lambda>(k, v) d. AList.update k v d) kvs [])"
| "dict_unpack v = Inl (Exn ''TypeError'' ''object is not a mapping'')"

section \<open>The agent, its tools and its collaborators\<close>

text \<open>A tool call of the model's reply: \<open>tool_call.id\<close>, \<open>tool_call.function.name\<close> and
  \<open>tool_call.function.arguments\<close> (a JSON text or an already structured value).\<close>

record tool_call =
  call_id :: string
  function_name :: string
  function_arguments :: pyval

text \<open>An entry of the tool registry: \<open>{"name": ..., "function_schema": ..., "func": ...}\<close>.
  The callable is deterministic: its outcome (a value, or an exception) is a function of the
  keyword arguments it receives.\<close>

record tool =
  name :: string
  function_schema :: pyval
  func :: "pydict \<Rightarrow> exn + pyval"

text \<open>The reply of the model backend, as far as \<open>send_message\<close> reads it:
  \<open>response.choices[0].message.content\<close>, \<open>response.choices[0].message.tool_calls\<close> (the
  code only tests it for truth, so \<open>None\<close> is the empty list) and \<open>response.usage\<close>:
  \<open>None\<close> when the reply carries no usage data, otherwise \<open>Some d\<close> with \<open>d\<close> what
  \<open>response.usage.model_dump()\<close> returns.\<close>

record response =
  content :: pyval
  tool_calls :: "tool_call list"
  usage :: "pyval option"

text \<open>
  The agent object. The first fields are set by the constructor. \<open>BaseAgent\<close> is not part
  of the sources at hand, so what its methods do is a parameter:
  \<^item> \<open>trigger_hook event payload\<close> is the outcome of \<open>await self._trigger_hook(event, payload)\<close>:
    \<open>None\<close> when it returns, \<open>Some e\<close> when a callback raises \<open>e\<close> (the specification
    says that the dispatcher does not catch what a callback raises); the outcome is a
    function of the event and the payload;
  \<^item> \<open>client_send_message messages tools\<close> is the outcome of
    \<open>self.client.send_message(messages=..., model=..., tools=..., user_id=..., chat_id=...)\<close>;
    the model and the two identifiers are attributes of the agent, so the outcome is a
    function of the messages and the tools.
\<close>

record agent =
  agent_name :: string
  user_id :: pyval
  chat_id :: pyval
  system_prompt :: pyval
  model :: string
  tool_registry :: "tool list"
  execute_function_concurrently :: bool
  trigger_hook :: "string \<Rightarrow> pydict \<Rightarrow> exn option"
  client_send_message :: "pyval list \<Rightarrow> pyval \<Rightarrow> exn + response"

text \<open>
  What the Python runtime and its libraries contribute:
  \<^item> \<open>json_loads\<close> is \<open>json.loads\<close>;
  \<^item> \<open>py_str\<close> is the builtin \<open>str\<close>;
  \<^item> \<open>now n\<close> is \<open>datetime.now().isoformat()\<close> after \<open>n\<close> recorded effects;
  \<^item> \<open>latency tc\<close> is the time the task of a tool call needs to finish under
    \<open>asyncio.gather\<close>: it fixes the order in which concurrent tasks complete;
  \<^item> \<open>stop_requested n\<close> tells whether a stop has been requested when the stop handler
    looks for the \<open>n\<close>-th time.
\<close>

record runtime =
  json_loads :: "string \<Rightarrow> exn + pyval"
  py_str :: "pyval \<Rightarrow> string"
  now :: "nat \<Rightarrow> string"
  latency :: "tool_call \<Rightarrow> nat"
  stop_requested :: "nat \<Rightarrow> bool"

text \<open>The observable effects of a run, in the order they happen.\<close>

datatype event =
    HookTriggered string pydict
  | ToolCalled string pydict
  | BackendCalled "pyval list" pyval

section \<open>Executing one tool\<close>

text \<open>\<open>await self._trigger_hook(event, payload)\<close>: the outcome and the recorded effect.\<close>

definition trigger :: "agent \<Rightarrow> string \<Rightarrow> pydict \<Rightarrow> (exn + unit) \<times> event list" where
  "trigger ag ev payload =
     ((case trigger_hook ag ev payload of None \<Rightarrow> Inr () | Some e \<Rightarrow> Inl e),
      [HookTriggered ev payload])"

definition start_payload :: "agent \<Rightarrow> tool_call \<Rightarrow> pydict" where
  "start_payload ag tc =
     [(''function'', PStr (function_name tc)),
      (''user_id'', user_id ag),
      (''chat_id'', chat_id ag),
      (''agent_name'', PStr (agent_name ag))]"

definition end_payload :: "agent \<Rightarrow> tool_call \<Rightarrow> pyval \<Rightarrow> pydict" where
  "end_payload ag tc result =
     [(''function'', PStr (function_name tc)),
      (''result'', result),
      (''user_id'', user_id ag),
      (''chat_id'', chat_id ag),
      (''agent_name'', PStr (agent_name ag))]"

definition error_payload :: "agent \<Rightarrow> tool_call \<Rightarrow> exn \<Rightarrow> pydict" where
  "error_payload ag tc e =
     [(''function'', PStr (function_name tc)),
      (''error'', PStr (exn_str e)),
      (''user_id'', user_id ag),
      (''chat_id'', chat_id ag),
      (''agent_name'', PStr (agent_name ag))]"

text \<open>Lines 192-195: a text is decoded with \<open>json.loads\<close>, anything else is taken as it is.\<close>

definition decode_arguments :: "runtime \<Rightarrow> pyval \<Rightarrow> exn + pyval" where
  "decode_arguments rt a = (case a of PStr s \<Rightarrow> json_loads rt s | _ \<Rightarrow> Inr a)"

text \<open>Lines 197-202: the decoded arguments, then the three contextual fields.\<close>

definition build_args :: "agent \<Rightarrow> pyval \<Rightarrow> exn + pydict" where
  "build_args ag arguments =
     (case dict_unpack arguments of
        Inl e \<Rightarrow> Inl e
      | Inr d \<Rightarrow>
          Inr (AList.update ''agent_name'' (PStr (agent_name ag))
                (AList.update ''chat_id'' (chat_id ag)
                  (AList.update ''user_id'' (user_id ag) d))))"

text \<open>Lines 192-204: decoding, merging and the call of the tool's callable. This is the
  part of the \<open>try\<close> block that can fail on account of the tool call itself.\<close>

definition invoke :: "runtime \<Rightarrow> agent \<Rightarrow> tool \<Rightarrow> tool_call \<Rightarrow> (exn + pyval) \<times> event list" where
  "invoke rt ag t tc =
     (case decode_arguments rt (function_arguments tc) of
        Inl e \<Rightarrow> (Inl e, [])
      | Inr arguments \<Rightarrow>
          (case build_args ag arguments of
             Inl e \<Rightarrow> (Inl e, [])
           | Inr args \<Rightarrow> (func t args, [ToolCalled (name t) args])))"

definition tool_result :: "tool_call \<Rightarrow> pyval \<Rightarrow> pydict" where
  "tool_result tc v =
     [(''tool_call_id'', PStr (call_id tc)),
      (''name'', PStr (function_name tc)),
      (''result'', v)]"

text \<open>Lines 191-218: the whole \<open>try\<close> block, the \<open>on_function_call_end\<close> hook included.\<close>

definition try_block :: "runtime \<Rightarrow> agent \<Rightarrow> tool \<Rightarrow> tool_call \<Rightarrow> (exn + pydict) \<times> event list" where
  "try_block rt ag t tc =
     (case invoke rt ag t tc of
        (Inl e, evs) \<Rightarrow> (Inl e, evs)
      | (Inr result, evs) \<Rightarrow>
          (case trigger ag ''on_function_call_end'' (end_payload ag tc result) of
             (Inl e, evs') \<Rightarrow> (Inl e, evs @ evs')
           | (Inr u, evs') \<Rightarrow> (Inr (tool_result tc result), evs @ evs')))"

text \<open>\<open>_execute_tool\<close>: the start hook is outside the \<open>try\<close>; \<open>except Exception\<close> triggers
  the error hook and returns a result that carries \<open>str(e)\<close>. What is raised in the \<open>try\<close>
  block and is not an \<open>Exception\<close> passes the handler by.\<close>

definition execute_tool :: "runtime \<Rightarrow> agent \<Rightarrow> tool \<Rightarrow> tool_call \<Rightarrow> (exn + pydict) \<times> event list" where
  "execute_tool rt ag t tc =
     (case trigger ag ''on_function_call_start'' (start_payload ag tc) of
        (Inl e, evs0) \<Rightarrow> (Inl e, evs0)
      | (Inr u, evs0) \<Rightarrow>
          (case try_block rt ag t tc of
             (Inr r, evs1) \<Rightarrow> (Inr r, evs0 @ evs1)
           | (Inl e, evs1) \<Rightarrow>
               if is_exception e then
                 (case trigger ag ''on_function_call_error'' (error_payload ag tc e) of
                    (Inl e', evs2) \<Rightarrow> (Inl e', evs0 @ evs1 @ evs2)
                  | (Inr u', evs2) \<Rightarrow>
                      (Inr (tool_result tc (PStr (exn_str e))), evs0 @ evs1 @ evs2))
               else (Inl e, evs0 @ evs1)))"

section \<open>Dispatching a batch of tool calls\<close>

text \<open>\<open>self._tool_map = {tool["name"]: tool for tool in self.tool_registry}\<close>: of two
  entries with one name the later one stays. An entry is a dictionary that is not empty,
  so \<open>if tool:\<close> holds exactly when \<open>self._tool_map.get(...)\<close> finds one.\<close>

definition tool_map :: "agent \<Rightarrow> string \<Rightarrow> tool option" where
  "tool_map ag = map_of (rev (map (\<lambda>t. (name t, t)) (tool_registry ag)))"

text \<open>\<open>_execute_tools_sequential\<close>: the loop, with the list \<open>results\<close> it appends to
  (\<open>if result:\<close> tests the result dictionary for truth). An exception that leaves
  \<open>_execute_tool\<close> ends the loop. Together with the outcome the function returns the
  effects it recorded.\<close>

fun sequential_loop ::
  "runtime \<Rightarrow> agent \<Rightarrow> tool_call list \<Rightarrow> pydict list \<Rightarrow> (exn + pydict list) \<times> event list" where
  "sequential_loop rt ag [] results = (Inr results, [])"
| "sequential_loop rt ag (tc # tcs) results =
     (case tool_map ag (function_name tc) of
        None \<Rightarrow> sequential_loop rt ag tcs results
      | Some t \<Rightarrow>
          (case execute_tool rt ag t tc of
             (Inl e, evs) \<Rightarrow> (Inl e, evs)
           | (Inr result, evs) \<Rightarrow>
               (case sequential_loop rt ag tcs
                       (if truthy (PDict result) then results @ [result] else results) of
                  (out, evs') \<Rightarrow> (out, evs @ evs'))))"

definition execute_tools_sequential ::
  "runtime \<Rightarrow> agent \<Rightarrow> tool_call list \<Rightarrow> (exn + pydict list) \<times> event list" where
  "execute_tools_sequential rt ag tcs = sequential_loop rt ag tcs []"

text \<open>\<open>_execute_tools_concurrent\<close>, first loop: one task per call whose tool is registered.\<close>

fun make_tasks :: "agent \<Rightarrow> tool_call list \<Rightarrow> (tool \<times> tool_call) list" where
  "make_tasks ag [] = []"
| "make_tasks ag (tc # tcs) =
     (case tool_map ag (function_name tc) of
        None \<Rightarrow> make_tasks ag tcs
      | Some t \<Rightarrow> (t, tc) # make_tasks ag tcs)"

text \<open>
  \<open>asyncio.gather(*tasks, return_exceptions=True)\<close>. The tasks finish in the order of their
  latencies (tasks of equal latency in the order they were started); each finished task
  hands in its position and its outcome, and what a task raised (an \<open>Exception\<close>, or a
  \<open>CancelledError\<close>) is an outcome like any other; when all have finished, the outcomes are
  returned by position.
\<close>

definition completion_order :: "nat list \<Rightarrow> nat list" where
  "completion_order lat = sort_key (\<lambda>i. lat ! i) [0..<length lat]"

definition gather :: "nat list \<Rightarrow> 'a list \<Rightarrow> 'a list" where
  "gather lat outs =
     map snd (sort_key fst (map (\<lambda>i. (i, outs ! i)) (completion_order lat)))"

text \<open>
  The second loop of \<open>_execute_tools_concurrent\<close>, and its \<open>return results\<close>: the first
  outcome \<open>r\<close> with \<open>isinstance(r, Exception)\<close> is raised; without one, the list of outcomes is
  returned as it is. An entry of the returned list is a result dictionary (\<open>Inr\<close>) or what
  a task raised that is not an \<open>Exception\<close> (\<open>Inl\<close>).
\<close>

fun raise_first :: "(exn + 'a) list \<Rightarrow> exn + (exn + 'a) list" where
  "raise_first [] = Inr []"
| "raise_first (r # rs) =
     (case r of
        Inl e \<Rightarrow>
          if is_exception e then Inl e
          else (case raise_first rs of Inl e' \<Rightarrow> Inl e' | Inr rs' \<Rightarrow> Inr (r # rs'))
      | Inr d \<Rightarrow>
          (case raise_first rs of Inl e' \<Rightarrow> Inl e' | Inr rs' \<Rightarrow> Inr (r # rs')))"

text \<open>The effects of the concurrent tasks are recorded task by task in the order in which
  the tasks complete; how the event loop interleaves them in between is not modelled.\<close>

definition execute_tools_concurrent ::
  "runtime \<Rightarrow> agent \<Rightarrow> tool_call list \<Rightarrow> (exn + (exn + pydict) list) \<times> event list" where
  "execute_tools_concurrent rt ag tcs =
     (let tasks = make_tasks ag tcs;
          runs = map (\<lambda>(t, tc). execute_tool rt ag t tc) tasks;
          lat = map (\<lambda>(t, tc). latency rt tc) tasks;
          results = gather lat (map fst runs)
      in (raise_first results,
          concat (map (\<lambda>i. snd (runs ! i)) (completion_order lat))))"

section \<open>The history store\<close>

text \<open>The state of a turn: \<open>self._message_history\<close>, the effects recorded so far, and the
  number of times the stop handler has looked for a stop request.\<close>

record state =
  message_history :: "pyval list"
  trace :: "event list"
  stop_checks :: nat

text \<open>The loop of \<open>_validate_history\<close>: the first entry that is not a dictionary, or has no
  \<open>role\<close>, or no \<open>content\<close>, raises \<open>ValueError\<close>.\<close>

fun check_messages :: "pyval list \<Rightarrow> exn option" where
  "check_messages [] = None"
| "check_messages (PDict kvs # msgs) =
     (if map_of kvs ''role'' = None then
        Some (Exn ''ValueError'' (''History messages must have '' @ quote ''role'' @ '' field''))
      else if map_of kvs ''content'' = None then
        Some (Exn ''ValueError'' (''History messages must have '' @ quote ''content'' @ '' field''))
      else check_messages msgs)"
| "check_messages (msg # msgs) =
     Some (Exn ''ValueError'' ''History messages must be dictionaries'')"

text \<open>\<open>_validate_history\<close>: a false value (\<open>None\<close>, an empty list, ...) gives the empty
  history; otherwise the value must be a list of well-formed entries, which is copied.\<close>

definition validate_history :: "pyval \<Rightarrow> exn + pyval list" where
  "validate_history history =
     (if \<not> truthy history then Inr []
      else case history of
             PList msgs \<Rightarrow>
               (case check_messages msgs of Some e \<Rightarrow> Inl e | None \<Rightarrow> Inr msgs)
           | _ \<Rightarrow> Inl (Exn ''ValueError'' ''History must be a list''))"

definition add_to_history :: "pyval \<Rightarrow> state \<Rightarrow> state" where
  "add_to_history message st = st\<lparr>message_history := message_history st @ [message]\<rparr>"

definition get_complete_history :: "state \<Rightarrow> pyval list" where
  "get_complete_history st = message_history st"

section \<open>Preparing the outbound messages\<close>

definition system_message :: "agent \<Rightarrow> pyval" where
  "system_message ag = PDict [(''role'', PStr ''system''), (''content'', system_prompt ag)]"

definition user_message :: "string \<Rightarrow> pyval" where
  "user_message message = PDict [(''role'', PStr ''user''), (''content'', PStr message)]"

text \<open>
  \<open>_prepare_messages\<close>. \<open>not history\<close> holds for \<open>None\<close> and for the empty list;
  \<open>history[0]["role"]\<close> and \<open>history[-1]["content"]\<close> raise when the entry has no such key.
\<close>

definition prepare_messages :: "agent \<Rightarrow> string \<Rightarrow> pyval list option \<Rightarrow> exn + pyval list" where
  "prepare_messages ag message history =
     (let h = (case history of None \<Rightarrow> [] | Some xs \<Rightarrow> xs) in
      case (case h of
              [] \<Rightarrow> Inr True
            | first # rest \<Rightarrow>
                (case subscript first ''role'' of
                   Inl e \<Rightarrow> Inl e
                 | Inr r \<Rightarrow> Inr (r \<noteq> PStr ''system''))) of
        Inl e \<Rightarrow> Inl e
      | Inr add_system \<Rightarrow>
          (let messages = (if add_system then [system_message ag] else []) @ h in
           case (if h = [] then Inr True
                 else case subscript (last h) ''content'' of
                        Inl e \<Rightarrow> Inl e
                      | Inr c \<Rightarrow> Inr (c \<noteq> PStr message)) of
             Inl e \<Rightarrow> Inl e
           | Inr add_user \<Rightarrow>
               Inr (if add_user then messages @ [user_message message] else messages)))"

section \<open>Formatting the response\<close>

text \<open>\<open>msg.get(key)\<close>.\<close>

fun dict_get :: "pyval \<Rightarrow> string \<Rightarrow> exn + pyval" where
  "dict_get (PDict kvs) k = Inr (case map_of kvs k of Some v \<Rightarrow> v | None \<Rightarrow> PNone)"
| "dict_get v k = Inl (Exn ''AttributeError'' ''object has no attribute get'')"

text \<open>The loop of \<open>_format_response\<close> that builds \<open>clean_history\<close>: user messages as they
  are, assistant messages with visible content reduced to role and content.\<close>

fun clean_history :: "pyval list \<Rightarrow> exn + pyval list" where
  "clean_history [] = Inr []"
| "clean_history (msg # msgs) =
     (case subscript msg ''role'' of
        Inl e \<Rightarrow> Inl e
      | Inr role \<Rightarrow>
          if role = PStr ''user'' then
            (case clean_history msgs of Inl e \<Rightarrow> Inl e | Inr rest \<Rightarrow> Inr (msg # rest))
          else if role = PStr ''assistant'' then
            (case dict_get msg ''content'' of
               Inl e \<Rightarrow> Inl e
             | Inr c \<Rightarrow>
                 if truthy c then
                   (case subscript msg ''content'' of
                      Inl e \<Rightarrow> Inl e
                    | Inr c' \<Rightarrow>
                        (case clean_history msgs of
                           Inl e \<Rightarrow> Inl e
                         | Inr rest \<Rightarrow>
                             Inr (PDict [(''role'', PStr ''assistant''), (''content'', c')] # rest)))
                 else clean_history msgs)
          else clean_history msgs)"

text \<open>The dictionary \<open>_format_response\<close> returns.\<close>

record turn_result =
  stop_reason :: string
  history_messages :: "pyval list"
  history_simplified :: "pyval list"
  result_agent_name :: string
  timestamp :: string
  final_output :: pyval
  result_usage :: pyval

text \<open>Lines 303-312: without a response the output and the usage are \<open>None\<close>; with one,
  \<open>response.usage.model_dump()\<close> raises \<open>AttributeError\<close> when \<open>response.usage\<close> is \<open>None\<close>.\<close>

definition output_and_usage :: "response option \<Rightarrow> exn + pyval \<times> pyval" where
  "output_and_usage resp =
     (case resp of
        None \<Rightarrow> Inr (PNone, PNone)
      | Some r \<Rightarrow>
          (case usage r of
             None \<Rightarrow> Inl (Exn ''AttributeError'' ''NoneType object has no attribute model_dump'')
           | Some d \<Rightarrow> Inr (content r, d)))"

definition format_response ::
  "runtime \<Rightarrow> agent \<Rightarrow> response option \<Rightarrow> string \<Rightarrow> state \<Rightarrow> exn + turn_result" where
  "format_response rt ag resp reason st =
     (let complete_history = get_complete_history st in
      case clean_history complete_history of
        Inl e \<Rightarrow> Inl e
      | Inr clean \<Rightarrow>
          (case output_and_usage resp of
             Inl e \<Rightarrow> Inl e
           | Inr (out, use) \<Rightarrow>
               Inr \<lparr>stop_reason = reason,
                    history_messages = complete_history,
                    history_simplified = clean,
                    result_agent_name = agent_name ag,
                    timestamp = now rt (length (trace st)),
                    final_output = out,
                    result_usage = use\<rparr>))"

section \<open>The turn\<close>

definition trigger_st :: "agent \<Rightarrow> string \<Rightarrow> pydict \<Rightarrow> state \<Rightarrow> (exn + unit) \<times> state" where
  "trigger_st ag ev payload st =
     (case trigger ag ev payload of (out, evs) \<Rightarrow> (out, st\<lparr>trace := trace st @ evs\<rparr>))"

text \<open>The payload of the turn-level hooks: one field of their own, then the identifiers
  and the time.\<close>

definition turn_payload :: "runtime \<Rightarrow> agent \<Rightarrow> pydict \<Rightarrow> state \<Rightarrow> pydict" where
  "turn_payload rt ag own st =
     own @ [(''user_id'', user_id ag),
            (''chat_id'', chat_id ag),
            (''timestamp'', PStr (now rt (length (trace st))))]"

text \<open>The call of the model backend, \<open>self.client.send_message(messages=..., tools=...)\<close>.\<close>

definition call_backend ::
  "agent \<Rightarrow> pyval list \<Rightarrow> pyval \<Rightarrow> state \<Rightarrow> (exn + response) \<times> state" where
  "call_backend ag messages tools st =
     (client_send_message ag messages tools,
      st\<lparr>trace := trace st @ [BackendCalled messages tools]\<rparr>)"

text \<open>Lines 108-117: the tool dispatch in the mode the agent was configured with. The
  list the sequential mode returns holds result dictionaries only.\<close>

definition dispatch_outcome ::
  "runtime \<Rightarrow> agent \<Rightarrow> tool_call list \<Rightarrow> (exn + (exn + pydict) list) \<times> event list" where
  "dispatch_outcome rt ag tcs =
     (if execute_function_concurrently ag
      then execute_tools_concurrent rt ag tcs
      else (case execute_tools_sequential rt ag tcs of
              (Inl e, evs) \<Rightarrow> (Inl e, evs)
            | (Inr results, evs) \<Rightarrow> (Inr (map Inr results), evs)))"

text \<open>The tool dispatch phase: the effects of the dispatch are recorded.\<close>

definition dispatch ::
  "runtime \<Rightarrow> agent \<Rightarrow> tool_call list \<Rightarrow> state \<Rightarrow> (exn + (exn + pydict) list) \<times> state" where
  "dispatch rt ag tcs st =
     (case dispatch_outcome rt ag tcs of
        (out, evs) \<Rightarrow> (out, st\<lparr>trace := trace st @ evs\<rparr>))"

text \<open>
  Modelled from the spec: \<open>BaseAgent._run_with_stop_handler\<close> is not among the sources. The
  specification (4.3) says that the stop request is consulted immediately after the
  model-backend call returns and immediately after the tool-dispatch phase returns, and
  that it never preempts work in flight: the phase runs, and if it returns, its result comes
  back together with the answer to "has a stop been requested by now".
\<close>

definition run_with_stop_handler ::
  "runtime \<Rightarrow> (state \<Rightarrow> (exn + 'a) \<times> state) \<Rightarrow> state \<Rightarrow> (exn + 'a \<times> bool) \<times> state" where
  "run_with_stop_handler rt phase st =
     (case phase st of
        (Inl e, st') \<Rightarrow> (Inl e, st')
      | (Inr r, st') \<Rightarrow>
          (Inr (r, stop_requested rt (stop_checks st')),
           st'\<lparr>stop_checks := Suc (stop_checks st')\<rparr>))"

definition tool_call_entry :: "tool_call \<Rightarrow> pyval" where
  "tool_call_entry tc =
     PDict [(''id'', PStr (call_id tc)),
            (''type'', PStr ''function''),
            (''function'', PDict [(''name'', PStr (function_name tc)),
                                  (''arguments'', function_arguments tc)])]"

text \<open>Lines 84-98: the assistant message, with \<open>tool_calls\<close> only when there are some.\<close>

definition assistant_message :: "response \<Rightarrow> pyval" where
  "assistant_message r =
     PDict ([(''role'', PStr ''assistant''), (''content'', content r)] @
            (if tool_calls r \<noteq> []
             then [(''tool_calls'', PList (map tool_call_entry (tool_calls r)))]
             else []))"

text \<open>The response object as the \<open>on_after_request\<close> hook receives it in its payload.\<close>

definition response_value :: "response \<Rightarrow> pyval" where
  "response_value r =
     PDict [(''content'', content r),
            (''tool_calls'', PList (map tool_call_entry (tool_calls r))),
            (''usage'', (case usage r of None \<Rightarrow> PNone | Some d \<Rightarrow> d))]"

text \<open>\<open>result[key]\<close> for an entry of the list the dispatch returned: an exception object
  cannot be subscripted.\<close>

fun result_item :: "exn + pydict \<Rightarrow> string \<Rightarrow> exn + pyval" where
  "result_item (Inr result) k = subscript (PDict result) k"
| "result_item (Inl s) k = Inl (Exn ''TypeError'' ''object is not subscriptable'')"

text \<open>Lines 124-131: one tool message per result, appended to the history store and to
  the working list.\<close>

fun append_tool_messages ::
  "runtime \<Rightarrow> (exn + pydict) list \<Rightarrow> pyval list \<Rightarrow> state \<Rightarrow> (exn + pyval list) \<times> state" where
  "append_tool_messages rt [] messages st = (Inr messages, st)"
| "append_tool_messages rt (result # results) messages st =
     (case result_item result ''tool_call_id'' of
        Inl e \<Rightarrow> (Inl e, st)
      | Inr i \<Rightarrow>
          (case result_item result ''result'' of
             Inl e \<Rightarrow> (Inl e, st)
           | Inr v \<Rightarrow>
               (let tool_message =
                      PDict [(''role'', PStr ''tool''),
                             (''tool_call_id'', i),
                             (''content'', PStr (py_str rt v))]
                in append_tool_messages rt results (messages @ [tool_message])
                     (add_to_history tool_message st))))"

text \<open>How the \<open>while True\<close> loop is left without an exception: by one of the two
  \<open>return\<close> statements of a manual stop, or by \<open>break\<close> with the last response.\<close>

datatype loop_exit = Return turn_result | Break response

text \<open>
  The loop of \<open>send_message\<close>. It has no bound of its own, so the model counts rounds: with
  no round left the result is \<open>None\<close>, which stands for a turn that has not ended yet.
\<close>

fun send_loop ::
  "nat \<Rightarrow> runtime \<Rightarrow> agent \<Rightarrow> pyval \<Rightarrow> pyval list \<Rightarrow> state \<Rightarrow> ((exn + loop_exit) \<times> state) option" where
  "send_loop 0 rt ag tools messages st = None"
| "send_loop (Suc n) rt ag tools messages st =
     (case run_with_stop_handler rt (call_backend ag messages tools) st of
        (Inl e, st1) \<Rightarrow> Some (Inl e, st1)
      | (Inr (result, was_stopped), st1) \<Rightarrow>
          if was_stopped then
            (case trigger_st ag ''on_manual_stop'' (turn_payload rt ag [] st1) st1 of
               (Inl e, st2) \<Rightarrow> Some (Inl e, st2)
             | (Inr u, st2) \<Rightarrow>
                 (case format_response rt ag (Some result) ''manual_stop'' st2 of
                    Inl e \<Rightarrow> Some (Inl e, st2)
                  | Inr r \<Rightarrow> Some (Inr (Return r), st2)))
          else
            (let st2 = add_to_history (assistant_message result) st1;
                 messages2 = messages @ [assistant_message result]
             in if tool_calls result = [] then Some (Inr (Break result), st2)
                else
                  (case run_with_stop_handler rt (dispatch rt ag (tool_calls result)) st2 of
                     (Inl e, st3) \<Rightarrow> Some (Inl e, st3)
                   | (Inr (tool_results, was_stopped2), st3) \<Rightarrow>
                       if was_stopped2 then
                         (case format_response rt ag (Some result) ''manual_stop'' st3 of
                            Inl e \<Rightarrow> Some (Inl e, st3)
                          | Inr r \<Rightarrow> Some (Inr (Return r), st3))
                       else
                         (case append_tool_messages rt tool_results messages2 st3 of
                            (Inl e, st4) \<Rightarrow> Some (Inl e, st4)
                          | (Inr messages3, st4) \<Rightarrow>
                              send_loop n rt ag tools messages3 st4))))"

text \<open>Lines 56-57 and 67: the tool schemas sent to the backend, \<open>None\<close> for an empty
  registry.\<close>

definition tool_schemas :: "agent \<Rightarrow> pyval" where
  "tool_schemas ag =
     (if tool_registry ag = [] then PNone
      else PList (map (\<lambda>t. PDict [(''type'', PStr ''function''),
                                     (''function'', function_schema t)])
                      (tool_registry ag)))"

text \<open>The body of the \<open>try\<close> block of \<open>send_message\<close>.\<close>

definition send_message_try ::
  "nat \<Rightarrow> runtime \<Rightarrow> agent \<Rightarrow> string \<Rightarrow> pyval \<Rightarrow> state \<Rightarrow> ((exn + turn_result) \<times> state) option" where
  "send_message_try n rt ag message history st =
     (case validate_history history of
        Inl e \<Rightarrow> Some (Inl e, st)
      | Inr safe_history \<Rightarrow>
          (let st1 = add_to_history (user_message message) (st\<lparr>message_history := safe_history\<rparr>) in
           case trigger_st ag ''on_before_request''
                  (turn_payload rt ag [(''message'', PStr message)] st1) st1 of
             (Inl e, st2) \<Rightarrow> Some (Inl e, st2)
           | (Inr u, st2) \<Rightarrow>
               (case prepare_messages ag message (Some (message_history st2)) of
                  Inl e \<Rightarrow> Some (Inl e, st2)
                | Inr messages \<Rightarrow>
                    (case send_loop n rt ag (tool_schemas ag) messages st2 of
                       None \<Rightarrow> None
                     | Some (Inl e, st3) \<Rightarrow> Some (Inl e, st3)
                     | Some (Inr (Return r), st3) \<Rightarrow> Some (Inr r, st3)
                     | Some (Inr (Break resp), st3) \<Rightarrow>
                         (case trigger_st ag ''on_after_request''
                                 (turn_payload rt ag [(''response'', response_value resp)] st3)
                                 st3 of
                            (Inl e, st4) \<Rightarrow> Some (Inl e, st4)
                          | (Inr u', st4) \<Rightarrow>
                              (case format_response rt ag (Some resp) ''completed'' st4 of
                                 Inl e \<Rightarrow> Some (Inl e, st4)
                               | Inr r \<Rightarrow> Some (Inr r, st4)))))))"

text \<open>\<open>send_message\<close>: an \<open>Exception\<close> of the body triggers \<open>on_error\<close> and is raised
  again; what the \<open>on_error\<close> hook itself raises takes its place. What is not an
  \<open>Exception\<close> passes the handler by.\<close>

definition send_message ::
  "nat \<Rightarrow> runtime \<Rightarrow> agent \<Rightarrow> string \<Rightarrow> pyval \<Rightarrow> state \<Rightarrow> ((exn + turn_result) \<times> state) option" where
  "send_message n rt ag message history st =
     (case send_message_try n rt ag message history st of
        None \<Rightarrow> None
      | Some (Inr r, st') \<Rightarrow> Some (Inr r, st')
      | Some (Inl e, st') \<Rightarrow>
          if is_exception e then
            (case trigger_st ag ''on_error''
                    (turn_payload rt ag [(''error'', PStr (exn_str e))] st') st' of
               (Inl e', st'') \<Rightarrow> Some (Inl e', st'')
             | (Inr u, st'') \<Rightarrow> Some (Inl e, st''))
          else Some (Inl e, st'))"

section \<open>Token counts\<close>

text \<open>
  \<open>ContextHandler.py\<close>. \<open>tiktoken\<close> is a library: an encoding maps a text to its tokens (or
  raises), and the two lookups return an encoding or raise. \<open>len(message) / 4\<close> is Python's
  true division, whose result is a float.
\<close>

type_synonym encoding = "string \<Rightarrow> exn + nat list"

record tiktoken =
  encoding_for_model :: "string \<Rightarrow> exn + encoding"
  get_encoding :: "string \<Rightarrow> exn + encoding"

definition get_simple_token_count :: "string \<Rightarrow> pyval" where
  "get_simple_token_count message = PFloat (of_nat (length message) / 4)"

definition get_accurate_token_count :: "tiktoken \<Rightarrow> string \<Rightarrow> string \<Rightarrow> exn + pyval" where
  "get_accurate_token_count tk message mdl =
     (case (case encoding_for_model tk mdl of
              Inr enc \<Rightarrow> Inr enc
            | Inl e \<Rightarrow>
                if exn_class e = ''KeyError'' then get_encoding tk ''gpt-4o'' else Inl e) of
        Inl e \<Rightarrow> Inr (PFloat (of_nat (length message) / 4))
      | Inr enc \<Rightarrow>
          (case enc message of
             Inl e \<Rightarrow> Inl e
           | Inr tokens \<Rightarrow> Inr (PInt (int (length tokens)))))"

section \<open>A concrete agent\<close>

text \<open>
  The agent of \<open>tests/test_simple_agent.py\<close>: two tools, \<open>get_current_time\<close> without
  arguments and \<open>get_weather\<close> with a city, the second one slower than the first. The
  theorems below are instantiated with it.
\<close>

definition time_tool :: tool where
  "time_tool =
     \<lparr>name = ''get_current_time'',
      function_schema = PDict [(''name'', PStr ''get_current_time'')],
      func = (\<lambda>args. Inr (PStr ''12:00:00''))\<rparr>"

definition weather_tool :: tool where
  "weather_tool =
     \<lparr>name = ''get_weather'',
      function_schema = PDict [(''name'', PStr ''get_weather'')],
      func = (\<lambda>args. case map_of args ''city'' of
                        Some (PStr c) \<Rightarrow> Inr (PStr (''Sunny in '' @ c))
                      | _ \<Rightarrow> Inl (Exn ''TypeError'' ''missing argument city''))\<rparr>"

definition time_call :: tool_call where
  "time_call =
     \<lparr>call_id = ''call_1'', function_name = ''get_current_time'',
      function_arguments = PStr ''{}''\<rparr>"

definition weather_call :: tool_call where
  "weather_call =
     \<lparr>call_id = ''call_2'', function_name = ''get_weather'',
      function_arguments = PDict [(''city'', PStr ''Tokyo''), (''user_id'', PStr ''intruder'')]\<rparr>"

text \<open>A call whose arguments do not decode, and a call of a tool nobody registered.\<close>

definition broken_call :: tool_call where
  "broken_call =
     \<lparr>call_id = ''call_3'', function_name = ''get_weather'',
      function_arguments = PStr ''{city''\<rparr>"

definition unknown_call :: tool_call where
  "unknown_call =
     \<lparr>call_id = ''call_4'', function_name = ''get_stock_price'',
      function_arguments = PStr ''{}''\<rparr>"

text \<open>The backend stub: it asks for the two tools until it sees a tool message, then it
  answers in words.\<close>

definition stub_backend :: "pyval list \<Rightarrow> pyval \<Rightarrow> exn + response" where
  "stub_backend messages tools =
     (if list_ex (\<lambda>m. subscript m ''role'' = Inr (PStr ''tool'')) messages
      then Inr \<lparr>content = PStr ''It is noon and sunny.'', tool_calls = [],
                usage = Some (PDict [(''total_tokens'', PInt 42)])\<rparr>
      else Inr \<lparr>content = PNone, tool_calls = [time_call, weather_call],
                usage = Some (PDict [(''total_tokens'', PInt 17)])\<rparr>)"

definition test_agent :: agent where
  "test_agent =
     \<lparr>agent_name = ''Test_Agent'',
      user_id = PStr ''test_user'',
      chat_id = PStr ''test_chat'',
      system_prompt = PStr ''You are a helpful assistant'',
      model = ''gpt-4o-mini'',
      tool_registry = [time_tool, weather_tool],
      execute_function_concurrently = True,
      trigger_hook = (\<lambda>ev payload. None),
      client_send_message = stub_backend\<rparr>"

text \<open>The same agent with a callback that raises, registered for one event.\<close>

definition faulty_hook :: "string \<Rightarrow> agent" where
  "faulty_hook event =
     test_agent\<lparr>trigger_hook :=
       (\<lambda>ev payload. if ev = event then Some (Exn ''RuntimeError'' ''hook failed'') else None)\<rparr>"

text \<open>A tool whose callable is cancelled while it waits: it raises
  \<open>asyncio.CancelledError\<close>, which is not an \<open>Exception\<close>. An agent that has it, and a call
  of it.\<close>

definition waiting_tool :: tool where
  "waiting_tool =
     \<lparr>name = ''wait_for_signal'',
      function_schema = PDict [(''name'', PStr ''wait_for_signal'')],
      func = (\<lambda>args. Inl (Signal ''CancelledError'' []))\<rparr>"

definition waiting_call :: tool_call where
  "waiting_call =
     \<lparr>call_id = ''call_5'', function_name = ''wait_for_signal'',
      function_arguments = PStr ''{}''\<rparr>"

definition waiting_agent :: agent where
  "waiting_agent = test_agent\<lparr>tool_registry := [time_tool, waiting_tool]\<rparr>"

text \<open>The same agent with a start callback that raises for one tool only.\<close>

definition picky_agent :: agent where
  "picky_agent =
     test_agent\<lparr>trigger_hook :=
       (\<lambda>ev payload.
          if ev = ''on_function_call_start'' \<and> map_of payload ''function'' = Some (PStr ''get_weather'')
          then Some (Exn ''RuntimeError'' ''hook failed'')
          else None)\<rparr>"

definition test_runtime :: runtime where
  "test_runtime =
     \<lparr>json_loads = (\<lambda>s. if s = ''{}'' then Inr (PDict [])
                          else Inl (Exn ''JSONDecodeError'' ''Expecting property name'')),
      py_str = (\<lambda>v. case v of PStr s \<Rightarrow> s | _ \<Rightarrow> ''?''),
      now = (\<lambda>n. ''2025-01-01T00:00:00''),
      latency = (\<lambda>tc. if function_name tc = ''get_weather'' then 1 else 0),
      stop_requested = (\<lambda>n. False)\<rparr>"


text \<open>A \<open>tiktoken\<close> that knows no model and no encoding of the name \<open>gpt-4o\<close>.\<close>

definition no_tokenizer :: tiktoken where
  "no_tokenizer =
     \<lparr>encoding_for_model = (\<lambda>m. Inl (Exn ''KeyError'' ''Could not map model to a tokeniser'')),
      get_encoding = (\<lambda>n. Inl (Exn ''ValueError'' ''Unknown encoding''))\<rparr>"

text \<open>An entry of a history is well formed when it is a dictionary with the keys \<open>role\<close>
  and \<open>content\<close>.\<close>

fun well_formed_entry :: "pyval \<Rightarrow> bool" where
  "well_formed_entry (PDict kvs) = (map_of kvs ''role'' \<noteq> None \<and> map_of kvs ''content'' \<noteq> None)"
| "well_formed_entry v = False"

text \<open>The state of an agent that has not run a turn yet.\<close>

definition fresh_state :: state where
  "fresh_state = \<lparr>message_history = [], trace = [], stop_checks = 0\<rparr>"

section \<open>Auxiliary facts\<close>

subsection \<open>Gathering concurrent tasks\<close>

text \<open>
  The order in which the tasks complete is a permutation of their positions, so the
  outcomes come back by position and the effects of every task are recorded once.
\<close>

lemma completion_order_mset: "mset (completion_order lat) = mset [0..<length lat]"
  by (simp add: completion_order_def)

lemma gather_by_position: "length lat = length outs \<Longrightarrow> gather lat outs = outs"
proof -
  assume len: "length lat = length outs"
  let ?g = "\<lambda>i. (i, outs ! i)"
  have "sort_key fst (map ?g (completion_order lat)) = map ?g [0..<length lat]"
  proof (rule sort_key_inj_key_eq)
    show "mset (map ?g (completion_order lat)) = mset (map ?g [0..<length lat])"
      using completion_order_mset [of lat] by (metis mset_map)
    show "inj_on fst (set (map ?g (completion_order lat)))"
      by (auto simp: inj_on_def)
    show "sorted (map fst (map ?g [0..<length lat]))"
      by (simp add: comp_def)
  qed
  then have "gather lat outs = map (\<lambda>i. outs ! i) [0..<length lat]"
    by (simp add: gather_def comp_def)
  with len show ?thesis by (simp add: map_nth)
qed

lemma mset_concat_map: "mset (concat (map f xs)) = (\<Sum>x\<in>#mset xs. mset (f x))"
  by (induction xs) simp_all

lemma mset_concat_perm:
  assumes "mset xs = mset ys"
  shows "mset (concat (map f xs)) = mset (concat (map f ys))"
proof -
  have "(\<Sum>x\<in>#mset xs. mset (f x)) = (\<Sum>x\<in>#mset ys. mset (f x))"
    using assms by simp
  then show ?thesis
    using mset_concat_map [of f xs] mset_concat_map [of f ys] by simp
qed

lemma events_in_completion_order:
  assumes len: "length lat = length runs"
  shows "mset (concat (map (\<lambda>i. snd (runs ! i)) (completion_order lat))) = mset (concat (map snd runs))"
proof -
  have "mset (completion_order lat) = mset [0..<length lat]"
    by (rule completion_order_mset)
  then have perm: "mset (completion_order lat) = mset [0..<length runs]"
    by (simp only: len)
  have nth: "map (\<lambda>i. snd (runs ! i)) [0..<length runs] = map snd runs"
    by (rule nth_equalityI) simp_all
  have "mset (concat (map (\<lambda>i. snd (runs ! i)) (completion_order lat)))
        = mset (concat (map (\<lambda>i. snd (runs ! i)) [0..<length runs]))"
    by (rule mset_concat_perm [OF perm])
  also have "\<dots> = mset (concat (map snd runs))"
    by (simp only: nth)
  finally show ?thesis .
qed

subsection \<open>Results of one tool and of a batch\<close>

lemma execute_tool_result_shape:
  "fst (execute_tool rt ag t tc) = Inr r \<Longrightarrow> \<exists>v. r = tool_result tc v"
  by (auto simp: execute_tool_def try_block_def trigger_def
           split: prod.splits sum.splits option.splits if_splits)

lemma execute_tool_result_truthy:
  "fst (execute_tool rt ag t tc) = Inr r \<Longrightarrow> truthy (PDict r)"
  by (auto dest!: execute_tool_result_shape simp: tool_result_def)

text \<open>
  The second loop of the concurrent dispatcher: what it raises is the first \<open>Exception\<close>
  among the outcomes, and what it returns is the list of outcomes itself.
\<close>

lemma raise_first_Cons_Inr:
  "raise_first (Inr r # outs) =
     (case raise_first outs of Inl e \<Rightarrow> Inl e | Inr rs \<Rightarrow> Inr (Inr r # rs))"
  by simp

lemma raise_first_map_Inr: "raise_first (map Inr rs) = Inr (map Inr rs)"
  by (induction rs) simp_all

lemma raise_first_Inr:
  "raise_first outs = Inr rs \<Longrightarrow> rs = outs"
proof (induction outs arbitrary: rs)
  case Nil
  then show ?case by simp
next
  case (Cons out outs)
  then show ?case
    by (cases out) (auto split: sum.splits if_splits)
qed

lemma raise_first_Inl:
  "raise_first outs = Inl e \<longleftrightarrow>
     (\<exists>i<length outs. outs ! i = Inl e \<and> is_exception e \<and>
        (\<forall>j<i. \<forall>e'. outs ! j = Inl e' \<longrightarrow> \<not> is_exception e'))"
proof (induction outs)
  case Nil
  then show ?case by simp
next
  case (Cons out outs)
  let ?P = "\<lambda>xs. \<exists>i<length xs. xs ! i = Inl e \<and> is_exception e \<and>
              (\<forall>j<i. \<forall>e'. xs ! j = Inl e' \<longrightarrow> \<not> is_exception e')"
  show ?case
  proof (cases "\<exists>e0. out = Inl e0 \<and> is_exception e0")
    case True
    then obtain e0 where out: "out = Inl e0" "is_exception e0" by blast
    have "?P (out # outs) \<longleftrightarrow> e0 = e"
    proof
      assume "?P (out # outs)"
      then obtain i where i: "i < length (out # outs)" "(out # outs) ! i = Inl e"
        "\<forall>j<i. \<forall>e'. (out # outs) ! j = Inl e' \<longrightarrow> \<not> is_exception e'" by blast
      have "i = 0"
      proof (rule ccontr)
        assume "i \<noteq> 0"
        then have "0 < i" by simp
        with i(3) out show False by auto
      qed
      with i(2) out show "e0 = e" by simp
    next
      assume "e0 = e"
      with out show "?P (out # outs)" by (intro exI [of _ 0]) simp
    qed
    with out show ?thesis by auto
  next
    case False
    have shift: "?P (out # outs) \<longleftrightarrow> ?P outs"
    proof
      assume "?P (out # outs)"
      then obtain i where i: "i < length (out # outs)" "(out # outs) ! i = Inl e" "is_exception e"
        "\<forall>j<i. \<forall>e'. (out # outs) ! j = Inl e' \<longrightarrow> \<not> is_exception e'" by blast
      with False obtain k where k: "i = Suc k" by (cases i) auto
      have "\<forall>j<k. \<forall>e'. outs ! j = Inl e' \<longrightarrow> \<not> is_exception e'"
      proof (intro allI impI)
        fix j e' assume "j < k" "outs ! j = Inl e'"
        then have "Suc j < i" "(out # outs) ! Suc j = Inl e'" using k by simp_all
        with i(4) show "\<not> is_exception e'" by blast
      qed
      with i k show "?P outs" by (intro exI [of _ k]) simp
    next
      assume "?P outs"
      then obtain k where k: "k < length outs" "outs ! k = Inl e" "is_exception e"
        "\<forall>j<k. \<forall>e'. outs ! j = Inl e' \<longrightarrow> \<not> is_exception e'" by blast
      have "\<forall>j<Suc k. \<forall>e'. (out # outs) ! j = Inl e' \<longrightarrow> \<not> is_exception e'"
      proof (intro allI impI)
        fix j e' assume "j < Suc k" "(out # outs) ! j = Inl e'"
        then show "\<not> is_exception e'"
          using False k(4) by (cases j) auto
      qed
      with k show "?P (out # outs)" by (intro exI [of _ "Suc k"]) simp
    qed
    have "raise_first (out # outs) = Inl e \<longleftrightarrow> raise_first outs = Inl e"
      using False by (cases out) (auto split: sum.splits)
    with shift Cons.IH show ?thesis by simp
  qed
qed

lemma concurrent_outcome:
  "fst (execute_tools_concurrent rt ag tcs) =
     raise_first (map (\<lambda>(t, tc). fst (execute_tool rt ag t tc)) (make_tasks ag tcs))"
  by (simp add: execute_tools_concurrent_def Let_def gather_by_position comp_def case_prod_unfold)

lemma concurrent_events:
  "mset (snd (execute_tools_concurrent rt ag tcs)) =
     mset (concat (map (\<lambda>(t, tc). snd (execute_tool rt ag t tc)) (make_tasks ag tcs)))"
  by (simp add: execute_tools_concurrent_def Let_def events_in_completion_order comp_def case_prod_unfold)

lemma concurrent_results:
  assumes "fst (execute_tools_concurrent rt ag tcs) = Inr rs"
  shows "rs = map (\<lambda>(t, tc). fst (execute_tool rt ag t tc)) (make_tasks ag tcs)"
  using assms by (simp add: concurrent_outcome raise_first_Inr)

lemma make_tasks_resolved:
  "map snd (make_tasks ag tcs) = filter (\<lambda>tc. tool_map ag (function_name tc) \<noteq> None) tcs"
  by (induction tcs) (auto split: option.splits)

lemma make_tasks_skip:
  "tool_map ag (function_name tc) = None \<Longrightarrow>
   make_tasks ag (pre @ tc # post) = make_tasks ag (pre @ post)"
  by (induction pre) (simp_all split: option.splits)

lemma sequential_loop_skip:
  "tool_map ag (function_name tc) = None \<Longrightarrow>
   sequential_loop rt ag (pre @ tc # post) acc = sequential_loop rt ag (pre @ post) acc"
  by (induction pre arbitrary: acc) (simp_all split: option.splits prod.splits sum.splits)

lemma sequential_loop_acc:
  "sequential_loop rt ag tcs acc =
     (case sequential_loop rt ag tcs [] of
        (out, evs) \<Rightarrow> ((case out of Inl e \<Rightarrow> Inl e | Inr rs \<Rightarrow> Inr (acc @ rs)), evs))"
proof (induction tcs arbitrary: acc)
  case Nil
  then show ?case by simp
next
  case (Cons tc tcs)
  show ?case
  proof (cases "tool_map ag (function_name tc)")
    case None
    then show ?thesis using Cons.IH [of acc] by simp
  next
    case (Some t)
    show ?thesis
    proof (cases "execute_tool rt ag t tc")
      case (Pair out evs)
      show ?thesis
      proof (cases out)
        case (Inl e)
        with Some Pair show ?thesis by simp
      next
        case (Inr r)
        with Pair have tr: "truthy (PDict r)"
          using execute_tool_result_truthy [of rt ag t tc r] by simp
        obtain out' evs' where rest: "sequential_loop rt ag tcs [] = (out', evs')"
          by (cases "sequential_loop rt ag tcs []")
        have a: "sequential_loop rt ag tcs (acc @ [r]) =
                 ((case out' of Inl e \<Rightarrow> Inl e | Inr rs \<Rightarrow> Inr ((acc @ [r]) @ rs)), evs')"
          using Cons.IH [of "acc @ [r]"] rest by simp
        have b: "sequential_loop rt ag tcs [r] =
                 ((case out' of Inl e \<Rightarrow> Inl e | Inr rs \<Rightarrow> Inr ([r] @ rs)), evs')"
          using Cons.IH [of "[r]"] rest by simp
        show ?thesis
          using Some Pair Inr tr a b by (cases out') simp_all
      qed
    qed
  qed
qed

lemma sequential_cons_result:
  assumes "tool_map ag (function_name tc) = Some t"
    and "fst (execute_tool rt ag t tc) = Inr r"
  shows "execute_tools_sequential rt ag (tc # rest) =
           (case execute_tools_sequential rt ag rest of
              (out, evs) \<Rightarrow>
                ((case out of Inl e' \<Rightarrow> Inl e' | Inr rs \<Rightarrow> Inr (r # rs)),
                 snd (execute_tool rt ag t tc) @ evs))"
proof -
  obtain evs0 where run: "execute_tool rt ag t tc = (Inr r, evs0)"
    using assms(2) by (cases "execute_tool rt ag t tc") simp
  have tr: "truthy (PDict r)"
    using execute_tool_result_truthy [OF assms(2)] .
  obtain out' evs' where rest: "sequential_loop rt ag rest [] = (out', evs')"
    by (cases "sequential_loop rt ag rest []")
  have "sequential_loop rt ag rest [r] =
          ((case out' of Inl e \<Rightarrow> Inl e | Inr rs \<Rightarrow> Inr ([r] @ rs)), evs')"
    using sequential_loop_acc [of rt ag rest "[r]"] rest by simp
  then show ?thesis
    using assms(1) run tr rest by (cases out') (simp_all add: execute_tools_sequential_def)
qed

lemma sequential_loop_ids:
  assumes "sequential_loop rt ag tcs acc = (Inr rs, evs)"
  shows "\<exists>new. rs = acc @ new \<and>
           map (\<lambda>r. map_of r ''tool_call_id'') new =
           map (\<lambda>c. Some (PStr (call_id c)))
             (filter (\<lambda>c. tool_map ag (function_name c) \<noteq> None) tcs)"
  using assms
proof (induction tcs arbitrary: acc evs)
  case Nil
  then show ?case by simp
next
  case (Cons tc tcs)
  show ?case
  proof (cases "tool_map ag (function_name tc)")
    case None
    with Cons show ?thesis by simp
  next
    case (Some t)
    obtain out evs0 where run: "execute_tool rt ag t tc = (out, evs0)"
      by (cases "execute_tool rt ag t tc")
    show ?thesis
    proof (cases out)
      case (Inl e)
      with Cons.prems Some run show ?thesis by simp
    next
      case (Inr r)
      with run have r: "fst (execute_tool rt ag t tc) = Inr r" by simp
      then have tr: "truthy (PDict r)" by (rule execute_tool_result_truthy)
      from r obtain v where "r = tool_result tc v"
        using execute_tool_result_shape by blast
      then have id: "map_of r ''tool_call_id'' = Some (PStr (call_id tc))"
        by (simp add: tool_result_def)
      obtain out' evs' where rest: "sequential_loop rt ag tcs (acc @ [r]) = (out', evs')"
        by (cases "sequential_loop rt ag tcs (acc @ [r])")
      with Cons.prems Some run Inr tr have "out' = Inr rs" by simp
      with Cons.IH rest obtain new where
        "rs = (acc @ [r]) @ new"
        "map (\<lambda>r. map_of r ''tool_call_id'') new =
         map (\<lambda>c. Some (PStr (call_id c)))
           (filter (\<lambda>c. tool_map ag (function_name c) \<noteq> None) tcs)"
        by blast
      with Some id show ?thesis
        by (intro exI [of _ "r # new"]) simp
    qed
  qed
qed

subsection \<open>Unfolding the concrete agent\<close>

lemmas test_defs =
  test_agent_def test_runtime_def time_tool_def weather_tool_def time_call_def
  weather_call_def broken_call_def unknown_call_def faulty_hook_def picky_agent_def
  waiting_tool_def waiting_call_def waiting_agent_def

lemmas run_defs =
  tool_map_def execute_tool_def
  try_block_def invoke_def decode_arguments_def build_args_def trigger_def tool_result_def
  start_payload_def end_payload_def error_payload_def

lemma test_agent_fields:
  "trigger_hook test_agent ev payload = None"
  "client_send_message test_agent = stub_backend"
  "tool_registry test_agent = [time_tool, weather_tool]"
  "agent_name test_agent = ''Test_Agent''"
  "user_id test_agent = PStr ''test_user''"
  "chat_id test_agent = PStr ''test_chat''"
  "system_prompt test_agent = PStr ''You are a helpful assistant''"
  "execute_function_concurrently test_agent"
  by (simp_all add: test_agent_def)

lemma test_runtime_fields:
  "py_str test_runtime (PStr s) = s"
  "stop_requested test_runtime k = False"
  by (simp_all add: test_runtime_def)



section \<open>Properties of the tool dispatcher\<close>

subsection \<open>Concurrent and sequential dispatch agree\<close>



text \<open>
  The weather tool is slower than the clock: its task completes last although it was
  requested first, and its result still comes first.
\<close>

lemma slow_task_completes_last:
  "completion_order (map (latency test_runtime) [weather_call, time_call]) = [1, 0]"
  by (simp add: completion_order_def test_defs upt_rec)


subsection \<open>A failing tool call yields a result\<close>

lemma failing_call_result:
  assumes "fst (invoke rt ag t tc) = Inl e"
    and "is_exception e"
    and "trigger_hook ag ''on_function_call_start'' (start_payload ag tc) = None"
    and "trigger_hook ag ''on_function_call_error'' (error_payload ag tc e) = None"
  shows "fst (execute_tool rt ag t tc) = Inr (tool_result tc (PStr (exn_str e)))"
proof -
  obtain evs where "invoke rt ag t tc = (Inl e, evs)"
    using assms(1) by (cases "invoke rt ag t tc") simp
  then show ?thesis
    using assms(2-4) by (simp add: execute_tool_def try_block_def trigger_def)
qed

text \<open>
  Claim C2, as amended. Let a tool call name a registered tool, and let decoding its
  arguments, merging them or calling the tool fail with an \<open>Exception\<close> \<open>e\<close>, while the
  \<open>on_function_call_start\<close> and \<open>on_function_call_error\<close> hooks return. Then
  \<open>_execute_tool\<close> returns the result dictionary with the call's id and name and the value
  \<open>str(e)\<close>, and the rest of the batch is dispatched as it would be alone: its outcome
  follows that result, in both modes, and sequential dispatch records the effects of the
  rest after those of the failing call.
\<close>

theorem tool_failure_becomes_result:
  assumes "tool_map ag (function_name tc) = Some t"
    and "fst (invoke rt ag t tc) = Inl e"
    and "is_exception e"
    and "trigger_hook ag ''on_function_call_start'' (start_payload ag tc) = None"
    and "trigger_hook ag ''on_function_call_error'' (error_payload ag tc e) = None"
  shows "fst (execute_tool rt ag t tc) = Inr (tool_result tc (PStr (exn_str e))) \<and>
         execute_tools_sequential rt ag (tc # rest) =
           (case execute_tools_sequential rt ag rest of
              (out, evs) \<Rightarrow>
                ((case out of
                    Inl e' \<Rightarrow> Inl e'
                  | Inr rs \<Rightarrow> Inr (tool_result tc (PStr (exn_str e)) # rs)),
                 snd (execute_tool rt ag t tc) @ evs)) \<and>
         fst (execute_tools_concurrent rt ag (tc # rest)) =
           (case fst (execute_tools_concurrent rt ag rest) of
              Inl e' \<Rightarrow> Inl e'
            | Inr rs \<Rightarrow> Inr (Inr (tool_result tc (PStr (exn_str e))) # rs))"
proof -
  have r: "fst (execute_tool rt ag t tc) = Inr (tool_result tc (PStr (exn_str e)))"
    using assms(2-5) by (rule failing_call_result)
  have s: "execute_tools_sequential rt ag (tc # rest) =
           (case execute_tools_sequential rt ag rest of
              (out, evs) \<Rightarrow>
                ((case out of
                    Inl e' \<Rightarrow> Inl e'
                  | Inr rs \<Rightarrow> Inr (tool_result tc (PStr (exn_str e)) # rs)),
                 snd (execute_tool rt ag t tc) @ evs))"
    using assms(1) r by (rule sequential_cons_result)
  have c: "fst (execute_tools_concurrent rt ag (tc # rest)) =
           (case fst (execute_tools_concurrent rt ag rest) of
              Inl e' \<Rightarrow> Inl e'
            | Inr rs \<Rightarrow> Inr (Inr (tool_result tc (PStr (exn_str e))) # rs))"
    using assms(1) r by (simp add: concurrent_outcome)
  from r s c show ?thesis by blast
qed

theorem tool_failure_becomes_result_witness:
  "tool_map test_agent (function_name broken_call) = Some weather_tool \<and>
   fst (invoke test_runtime test_agent weather_tool broken_call) =
     Inl (Exn ''JSONDecodeError'' ''Expecting property name'') \<and>
   fst (execute_tool test_runtime test_agent weather_tool broken_call) =
     Inr (tool_result broken_call (PStr ''Expecting property name'')) \<and>
   fst (execute_tools_sequential test_runtime test_agent [broken_call, time_call]) =
     Inr [tool_result broken_call (PStr ''Expecting property name''),
          tool_result time_call (PStr ''12:00:00'')]"
proof -
  have h1: "tool_map test_agent (function_name broken_call) = Some weather_tool"
    by (simp add: tool_map_def test_defs)
  have h2: "fst (invoke test_runtime test_agent weather_tool broken_call) =
              Inl (Exn ''JSONDecodeError'' ''Expecting property name'')"
    by (simp add: invoke_def decode_arguments_def test_defs)
  have h0: "is_exception (Exn ''JSONDecodeError'' ''Expecting property name'')"
    by simp
  have h3: "trigger_hook test_agent ''on_function_call_start''
              (start_payload test_agent broken_call) = None"
    by (simp add: test_agent_def)
  have h4: "trigger_hook test_agent ''on_function_call_error''
              (error_payload test_agent broken_call
                 (Exn ''JSONDecodeError'' ''Expecting property name'')) = None"
    by (simp add: test_agent_def)
  have rest: "execute_tools_sequential test_runtime test_agent [time_call] =
                (Inr [tool_result time_call (PStr ''12:00:00'')],
                 [HookTriggered ''on_function_call_start'' (start_payload test_agent time_call),
                  ToolCalled ''get_current_time''
                    [(''user_id'', PStr ''test_user''), (''chat_id'', PStr ''test_chat''),
                     (''agent_name'', PStr ''Test_Agent'')],
                  HookTriggered ''on_function_call_end''
                    (end_payload test_agent time_call (PStr ''12:00:00''))])"
    by (simp add: execute_tools_sequential_def tool_map_def execute_tool_def try_block_def
          invoke_def decode_arguments_def build_args_def trigger_def tool_result_def test_defs)
  from tool_failure_becomes_result [OF h1 h2 h0 h3 h4, of "[time_call]"] h1 h2 rest
  show ?thesis by simp
qed

text \<open>
  Claim C2 as it is written fails when the \<open>on_function_call_error\<close> hook itself raises:
  the call below does not decode, the hook raises inside the \<open>except\<close> block, and the
  hook's exception leaves \<open>_execute_tool\<close> and ends the sequential batch.
\<close>

theorem error_hook_fault_escapes:
  "tool_map (faulty_hook ''on_function_call_error'') (function_name broken_call) = Some weather_tool \<and>
   fst (invoke test_runtime (faulty_hook ''on_function_call_error'') weather_tool broken_call) =
     Inl (Exn ''JSONDecodeError'' ''Expecting property name'') \<and>
   fst (execute_tool test_runtime (faulty_hook ''on_function_call_error'') weather_tool broken_call) =
     Inl (Exn ''RuntimeError'' ''hook failed'') \<and>
   fst (execute_tools_sequential test_runtime (faulty_hook ''on_function_call_error'')
          [broken_call, time_call]) =
     Inl (Exn ''RuntimeError'' ''hook failed'')"
  by (simp add: execute_tools_sequential_def run_defs test_defs)

subsection \<open>An uncaught fault under concurrent dispatch\<close>

text \<open>
  What a task raises as an \<open>Exception\<close> is raised by the dispatcher: the first one in the
  order of the requests, after every task has run to its end (the recorded effects are
  those of all tasks, each once).
\<close>

lemma concurrent_first_exception:
  assumes "i < length (make_tasks ag tcs)"
    and "fst (case make_tasks ag tcs ! i of (t, tc) \<Rightarrow> execute_tool rt ag t tc) = Inl e"
    and "is_exception e"
    and "\<forall>j<i. \<forall>e'. fst (case make_tasks ag tcs ! j of (t, tc) \<Rightarrow> execute_tool rt ag t tc) = Inl e'
                   \<longrightarrow> \<not> is_exception e'"
  shows "fst (execute_tools_concurrent rt ag tcs) = Inl e \<and>
         mset (snd (execute_tools_concurrent rt ag tcs)) =
           mset (concat (map (\<lambda>(t, tc). snd (execute_tool rt ag t tc)) (make_tasks ag tcs)))"
proof -
  let ?outs = "map (\<lambda>(t, tc). fst (execute_tool rt ag t tc)) (make_tasks ag tcs)"
  have nth: "?outs ! k = fst (case make_tasks ag tcs ! k of (t, tc) \<Rightarrow> execute_tool rt ag t tc)"
    if "k < length (make_tasks ag tcs)" for k
    using that by (simp add: case_prod_unfold)
  have "i < length ?outs" using assms(1) by simp
  moreover have "?outs ! i = Inl e" using assms(1,2) nth by simp
  moreover have "\<forall>j<i. \<forall>e'. ?outs ! j = Inl e' \<longrightarrow> \<not> is_exception e'"
    using assms(1,4) nth by auto
  ultimately have "raise_first ?outs = Inl e"
    unfolding raise_first_Inl using assms(3) by blast
  then show ?thesis
    by (simp add: concurrent_outcome concurrent_events)
qed

text \<open>
  The start hook raises for the weather tool only: the clock is called before and after
  it, and the dispatch raises the hook's exception.
\<close>

lemma concurrent_hook_fault_raised:
  "fst (execute_tools_concurrent test_runtime picky_agent [time_call, weather_call, time_call]) =
     Inl (Exn ''RuntimeError'' ''hook failed'') \<and>
   count (mset (snd (execute_tools_concurrent test_runtime picky_agent
                       [time_call, weather_call, time_call])))
     (ToolCalled ''get_current_time''
        [(''user_id'', PStr ''test_user''), (''chat_id'', PStr ''test_chat''),
         (''agent_name'', PStr ''Test_Agent'')]) = 2"
proof -
  have tasks: "make_tasks picky_agent [time_call, weather_call, time_call] =
                 [(time_tool, time_call), (weather_tool, weather_call), (time_tool, time_call)]"
    by (simp add: tool_map_def test_defs)
  have t: "execute_tool test_runtime picky_agent time_tool time_call =
             (Inr (tool_result time_call (PStr ''12:00:00'')),
              [HookTriggered ''on_function_call_start'' (start_payload picky_agent time_call),
               ToolCalled ''get_current_time''
                 [(''user_id'', PStr ''test_user''), (''chat_id'', PStr ''test_chat''),
                  (''agent_name'', PStr ''Test_Agent'')],
               HookTriggered ''on_function_call_end''
                 (end_payload picky_agent time_call (PStr ''12:00:00''))])"
    by (simp add: run_defs test_defs)
  have w: "execute_tool test_runtime picky_agent weather_tool weather_call =
             (Inl (Exn ''RuntimeError'' ''hook failed''),
              [HookTriggered ''on_function_call_start'' (start_payload picky_agent weather_call)])"
    by (simp add: run_defs test_defs)
  have h1: "1 < length (make_tasks picky_agent [time_call, weather_call, time_call])"
    unfolding tasks by simp
  have h2: "fst (case make_tasks picky_agent [time_call, weather_call, time_call] ! 1 of
                   (t, tc) \<Rightarrow> execute_tool test_runtime picky_agent t tc) =
              Inl (Exn ''RuntimeError'' ''hook failed'')"
    unfolding tasks by (simp add: w)
  have h3: "\<forall>j<1. \<forall>e'. fst (case make_tasks picky_agent [time_call, weather_call, time_call] ! j of
                            (t, tc) \<Rightarrow> execute_tool test_runtime picky_agent t tc) = Inl e'
                   \<longrightarrow> \<not> is_exception e'"
    unfolding tasks by (simp add: t)
  have h0: "is_exception (Exn ''RuntimeError'' ''hook failed'')" by simp
  from concurrent_first_exception [OF h1 h2 h0 h3]
  show ?thesis unfolding tasks by (simp add: t w)
qed

text \<open>
  Claim C6 fails on the code. The loop after \<open>gather\<close> raises an outcome only when it is an
  instance of \<open>Exception\<close> (line 166). A task that ends with \<open>asyncio.CancelledError\<close>, which
  \<open>except Exception\<close> in \<open>_execute_tool\<close> lets through and \<open>gather\<close> hands back in its list,
  is not raised: \<open>_execute_tools_concurrent\<close> returns normally, with the error object as an
  entry of the result list beside the result of the other call. Sequential dispatch of the
  same batch raises it.
\<close>

theorem cancelled_task_returned_as_result:
  "tool_map waiting_agent (function_name waiting_call) = Some waiting_tool \<and>
   fst (execute_tool test_runtime waiting_agent waiting_tool waiting_call) =
     Inl (Signal ''CancelledError'' []) \<and>
   fst (execute_tools_concurrent test_runtime waiting_agent [waiting_call, time_call]) =
     Inr [Inl (Signal ''CancelledError'' []),
          Inr (tool_result time_call (PStr ''12:00:00''))] \<and>
   fst (execute_tools_sequential test_runtime waiting_agent [waiting_call, time_call]) =
     Inl (Signal ''CancelledError'' [])"
proof -
  have m: "tool_map waiting_agent (function_name waiting_call) = Some waiting_tool"
    "tool_map waiting_agent (function_name time_call) = Some time_tool"
    by (simp_all add: tool_map_def test_defs)
  have w: "execute_tool test_runtime waiting_agent waiting_tool waiting_call =
             (Inl (Signal ''CancelledError'' []),
              [HookTriggered ''on_function_call_start'' (start_payload waiting_agent waiting_call),
               ToolCalled ''wait_for_signal''
                 [(''user_id'', PStr ''test_user''), (''chat_id'', PStr ''test_chat''),
                  (''agent_name'', PStr ''Test_Agent'')]])"
    by (simp add: run_defs test_defs)
  have t: "fst (execute_tool test_runtime waiting_agent time_tool time_call) =
             Inr (tool_result time_call (PStr ''12:00:00''))"
    by (simp add: run_defs test_defs)
  have c: "fst (execute_tools_concurrent test_runtime waiting_agent [waiting_call, time_call]) =
     Inr [Inl (Signal ''CancelledError'' []),
          Inr (tool_result time_call (PStr ''12:00:00''))]"
    by (simp add: concurrent_outcome m w t)
  have s: "fst (execute_tools_sequential test_runtime waiting_agent [waiting_call, time_call]) =
     Inl (Signal ''CancelledError'' [])"
    by (simp add: execute_tools_sequential_def m w)
  from m(1) w c s show ?thesis by simp
qed

text \<open>
  The turn then fails where it reads the entry as a result dictionary (line 127).
\<close>

lemma cancelled_result_not_subscriptable:
  "fst (append_tool_messages rt (Inl s # results) messages st) =
     Inl (Exn ''TypeError'' ''object is not subscriptable'')"
  by simp

subsection \<open>Calls of unregistered tools are skipped\<close>

text \<open>
  Claim C7. A call whose name is not a key of the tool map is skipped in both modes:
  dispatching the batch is dispatching the batch without it (same outcome, same recorded
  effects, so no result, no error and no hook for this call). A returned list has one entry
  for each resolved request, in order: the results carry the ids of the resolved calls, and
  in the list of the concurrent mode the entry at a position, when it is a result, carries
  the id of the resolved call at that position.
\<close>

theorem unregistered_call_skipped:
  assumes "tool_map ag (function_name tc) = None"
  shows "execute_tools_sequential rt ag (pre @ tc # post) =
           execute_tools_sequential rt ag (pre @ post) \<and>
         execute_tools_concurrent rt ag (pre @ tc # post) =
           execute_tools_concurrent rt ag (pre @ post) \<and>
         (\<forall>rs. fst (execute_tools_sequential rt ag (pre @ tc # post)) = Inr rs \<or>
               fst (execute_tools_concurrent rt ag (pre @ tc # post)) = Inr (map Inr rs) \<longrightarrow>
               map (\<lambda>r. map_of r ''tool_call_id'') rs =
               map (\<lambda>c. Some (PStr (call_id c)))
                 (filter (\<lambda>c. tool_map ag (function_name c) \<noteq> None) (pre @ post))) \<and>
         (\<forall>rs. fst (execute_tools_concurrent rt ag (pre @ tc # post)) = Inr rs \<longrightarrow>
               length rs =
               length (filter (\<lambda>c. tool_map ag (function_name c) \<noteq> None) (pre @ post)) \<and>
               (\<forall>i d. i < length rs \<longrightarrow> rs ! i = Inr d \<longrightarrow>
                  map_of d ''tool_call_id'' =
                  Some (PStr (call_id
                    (filter (\<lambda>c. tool_map ag (function_name c) \<noteq> None) (pre @ post) ! i)))))"
proof -
  let ?resolved = "filter (\<lambda>c. tool_map ag (function_name c) \<noteq> None) (pre @ post)"
  have s: "execute_tools_sequential rt ag (pre @ tc # post) =
           execute_tools_sequential rt ag (pre @ post)"
    using assms by (simp add: execute_tools_sequential_def sequential_loop_skip)
  have c: "execute_tools_concurrent rt ag (pre @ tc # post) =
           execute_tools_concurrent rt ag (pre @ post)"
    using assms by (simp add: execute_tools_concurrent_def make_tasks_skip)
  have seq_ids: "map (\<lambda>r. map_of r ''tool_call_id'') rs = map (\<lambda>c. Some (PStr (call_id c))) ?resolved"
    if "fst (execute_tools_sequential rt ag (pre @ post)) = Inr rs" for rs
  proof -
    have "fst (sequential_loop rt ag (pre @ post) []) = Inr rs"
      using that by (simp add: execute_tools_sequential_def)
    then obtain evs where "sequential_loop rt ag (pre @ post) [] = (Inr rs, evs)"
      by (cases "sequential_loop rt ag (pre @ post) []") simp
    from sequential_loop_ids [OF this] show ?thesis by simp
  qed
  have len: "length rs = length ?resolved"
    if "fst (execute_tools_concurrent rt ag (pre @ post)) = Inr rs" for rs
  proof -
    have "length (make_tasks ag (pre @ post)) = length (map snd (make_tasks ag (pre @ post)))"
      by simp
    also have "\<dots> = length ?resolved"
      by (simp only: make_tasks_resolved)
    finally show ?thesis
      using concurrent_results [OF that] by simp
  qed
  have conc_ids: "map (\<lambda>r. map_of r ''tool_call_id'') rs = map (\<lambda>c. Some (PStr (call_id c))) ?resolved"
    if "fst (execute_tools_concurrent rt ag (pre @ post)) = Inr (map Inr rs)" for rs
  proof -
    let ?tasks = "make_tasks ag (pre @ post)"
    from concurrent_results [OF that]
    have eq: "map Inr rs = map (\<lambda>(t, c). fst (execute_tool rt ag t c)) ?tasks" .
    then have len: "length rs = length ?tasks"
      by (metis length_map)
    have "map (\<lambda>r. map_of r ''tool_call_id'') rs = map (\<lambda>(t, c). Some (PStr (call_id c))) ?tasks"
    proof (rule nth_equalityI)
      show "length (map (\<lambda>r. map_of r ''tool_call_id'') rs) =
            length (map (\<lambda>(t, c). Some (PStr (call_id c))) ?tasks)"
        using len by simp
    next
      fix i assume "i < length (map (\<lambda>r. map_of r ''tool_call_id'') rs)"
      then have i: "i < length rs" by simp
      obtain t c where p: "?tasks ! i = (t, c)" by (cases "?tasks ! i")
      from eq i len have "Inr (rs ! i) = (map (\<lambda>(t, c). fst (execute_tool rt ag t c)) ?tasks) ! i"
        by (metis nth_map)
      with i len p have "fst (execute_tool rt ag t c) = Inr (rs ! i)" by simp
      then obtain v where "rs ! i = tool_result c v"
        using execute_tool_result_shape by blast
      then have "map_of (rs ! i) ''tool_call_id'' = Some (PStr (call_id c))"
        by (simp add: tool_result_def)
      with i len p show "map (\<lambda>r. map_of r ''tool_call_id'') rs ! i =
                         map (\<lambda>(t, c). Some (PStr (call_id c))) ?tasks ! i"
        by simp
    qed
    also have "\<dots> = map (\<lambda>c. Some (PStr (call_id c))) (map snd ?tasks)"
      by (simp add: case_prod_unfold)
    finally show ?thesis
      by (simp only: make_tasks_resolved)
  qed
  have pos: "map_of d ''tool_call_id'' = Some (PStr (call_id (?resolved ! i)))"
    if "fst (execute_tools_concurrent rt ag (pre @ post)) = Inr rs" "i < length rs" "rs ! i = Inr d"
    for rs i d
  proof -
    let ?tasks = "make_tasks ag (pre @ post)"
    from concurrent_results [OF that(1)]
    have eq: "rs = map (\<lambda>(t, c). fst (execute_tool rt ag t c)) ?tasks" .
    then have i: "i < length ?tasks" using that(2) by simp
    obtain t c where p: "?tasks ! i = (t, c)" by (cases "?tasks ! i")
    have "map snd ?tasks ! i = c" using i p by simp
    then have c: "?resolved ! i = c" by (simp only: make_tasks_resolved)
    from eq i p that(3) have "fst (execute_tool rt ag t c) = Inr d" by simp
    then obtain v where "d = tool_result c v"
      using execute_tool_result_shape by blast
    then show ?thesis using c by (simp add: tool_result_def)
  qed
  show ?thesis
    unfolding s c using s c seq_ids conc_ids len pos by blast
qed

theorem unregistered_call_skipped_witness:
  "tool_map test_agent (function_name unknown_call) = None \<and>
   execute_tools_sequential test_runtime test_agent ([time_call] @ unknown_call # [weather_call]) =
     execute_tools_sequential test_runtime test_agent ([time_call] @ [weather_call]) \<and>
   fst (execute_tools_concurrent test_runtime test_agent ([time_call] @ unknown_call # [weather_call])) =
     Inr [Inr (tool_result time_call (PStr ''12:00:00'')),
          Inr (tool_result weather_call (PStr ''Sunny in Tokyo''))]"
proof -
  have h: "tool_map test_agent (function_name unknown_call) = None"
    by (simp add: tool_map_def test_defs)
  have r: "fst (execute_tools_concurrent test_runtime test_agent ([time_call] @ [weather_call])) =
     Inr [Inr (tool_result time_call (PStr ''12:00:00'')),
          Inr (tool_result weather_call (PStr ''Sunny in Tokyo''))]"
    by (simp add: concurrent_outcome run_defs test_defs)
  from unregistered_call_skipped [OF h, of test_runtime "[time_call]" "[weather_call]"] h r
  show ?thesis by simp
qed

subsection \<open>The identifiers a tool receives\<close>

lemma build_args_identifiers:
  assumes "build_args ag a = Inr args"
  shows "map_of args ''user_id'' = Some (user_id ag) \<and>
         map_of args ''chat_id'' = Some (chat_id ag) \<and>
         map_of args ''agent_name'' = Some (PStr (agent_name ag))"
  using assms by (auto simp: build_args_def update_conv' split: sum.splits)

lemma invoke_tool_called:
  assumes "ToolCalled n args \<in> set (snd (invoke rt ag t tc))"
  shows "\<exists>a. build_args ag a = Inr args"
  using assms by (auto simp: invoke_def split: sum.splits)

lemma execute_tool_tool_called:
  assumes "ToolCalled n args \<in> set (snd (execute_tool rt ag t tc))"
  shows "ToolCalled n args \<in> set (snd (invoke rt ag t tc))"
  using assms
  by (cases "invoke rt ag t tc"; cases "fst (invoke rt ag t tc)")
     (auto simp: execute_tool_def try_block_def trigger_def split: option.splits if_splits)

text \<open>
  Claim C10. Whenever \<open>_execute_tool\<close> calls the tool's callable, the keyword arguments
  carry the agent's \<open>user_id\<close>, \<open>chat_id\<close> and \<open>agent_name\<close>, whatever the model put into
  the arguments of the call.
\<close>

theorem tool_receives_agent_identifiers:
  assumes "ToolCalled n args \<in> set (snd (execute_tool rt ag t tc))"
  shows "map_of args ''user_id'' = Some (user_id ag) \<and>
         map_of args ''chat_id'' = Some (chat_id ag) \<and>
         map_of args ''agent_name'' = Some (PStr (agent_name ag))"
proof -
  from assms obtain a where "build_args ag a = Inr args"
    using execute_tool_tool_called invoke_tool_called by blast
  then show ?thesis by (rule build_args_identifiers)
qed

text \<open>
  The model asks for the weather with a \<open>user_id\<close> of its own; the tool is called with the
  agent's.
\<close>

theorem tool_receives_agent_identifiers_witness:
  "function_arguments weather_call = PDict [(''city'', PStr ''Tokyo''), (''user_id'', PStr ''intruder'')] \<and>
   ToolCalled ''get_weather''
     [(''city'', PStr ''Tokyo''), (''user_id'', PStr ''test_user''),
      (''chat_id'', PStr ''test_chat''), (''agent_name'', PStr ''Test_Agent'')]
     \<in> set (snd (execute_tool test_runtime test_agent weather_tool weather_call)) \<and>
   map_of [(''city'', PStr ''Tokyo''), (''user_id'', PStr ''test_user''),
           (''chat_id'', PStr ''test_chat''), (''agent_name'', PStr ''Test_Agent'')] ''user_id'' =
     Some (user_id test_agent)"
proof -
  have h: "ToolCalled ''get_weather''
     [(''city'', PStr ''Tokyo''), (''user_id'', PStr ''test_user''),
      (''chat_id'', PStr ''test_chat''), (''agent_name'', PStr ''Test_Agent'')]
     \<in> set (snd (execute_tool test_runtime test_agent weather_tool weather_call))"
    by (simp add: run_defs test_defs)
  from tool_receives_agent_identifiers [OF h] h
  show ?thesis by (simp add: weather_call_def)
qed

subsection \<open>Faults of lifecycle hooks\<close>

text \<open>
  The start hook is awaited before the \<open>try\<close> block and the error hook inside the
  \<open>except\<close> block: what they raise leaves \<open>_execute_tool\<close>. The end hook is awaited
  inside the \<open>try\<close> block.
\<close>

lemma start_hook_fault:
  assumes "trigger_hook ag ''on_function_call_start'' (start_payload ag tc) = Some e"
  shows "fst (execute_tool rt ag t tc) = Inl e"
  using assms by (simp add: execute_tool_def trigger_def)

lemma error_hook_fault:
  assumes "trigger_hook ag ''on_function_call_start'' (start_payload ag tc) = None"
    and "fst (try_block rt ag t tc) = Inl e"
    and "is_exception e"
    and "trigger_hook ag ''on_function_call_error'' (error_payload ag tc e) = Some e'"
  shows "fst (execute_tool rt ag t tc) = Inl e'"
proof -
  obtain evs where "try_block rt ag t tc = (Inl e, evs)"
    using assms(2) by (cases "try_block rt ag t tc") simp
  then show ?thesis
    using assms(1,3,4) by (simp add: execute_tool_def trigger_def)
qed

lemma end_hook_fault:
  assumes "trigger_hook ag ''on_function_call_start'' (start_payload ag tc) = None"
    and "fst (invoke rt ag t tc) = Inr v"
    and "trigger_hook ag ''on_function_call_end'' (end_payload ag tc v) = Some e"
    and "is_exception e"
    and "trigger_hook ag ''on_function_call_error'' (error_payload ag tc e) = None"
  shows "fst (execute_tool rt ag t tc) = Inr (tool_result tc (PStr (exn_str e)))"
proof -
  obtain evs where "invoke rt ag t tc = (Inr v, evs)"
    using assms(2) by (cases "invoke rt ag t tc") simp
  then show ?thesis
    using assms(1,3,4,5) by (simp add: execute_tool_def try_block_def trigger_def)
qed

text \<open>
  Claim C4 fails on the code for \<open>on_function_call_end\<close>: that hook is awaited inside the
  \<open>try\<close> block of \<open>_execute_tool\<close> (line 206), so \<open>except Exception\<close> catches what it
  raises like a failure of the tool, and the text of the hook's exception comes back as the
  value of a result dictionary. The same callback on \<open>on_function_call_start\<close> or on
  \<open>on_function_call_error\<close> makes \<open>_execute_tool\<close> raise.
\<close>

theorem end_hook_fault_becomes_result:
  "fst (invoke test_runtime (faulty_hook ''on_function_call_end'') time_tool time_call) =
     Inr (PStr ''12:00:00'') \<and>
   trigger_hook (faulty_hook ''on_function_call_end'') ''on_function_call_end''
     (end_payload (faulty_hook ''on_function_call_end'') time_call (PStr ''12:00:00'')) =
     Some (Exn ''RuntimeError'' ''hook failed'') \<and>
   fst (execute_tool test_runtime (faulty_hook ''on_function_call_end'') time_tool time_call) =
     Inr (tool_result time_call (PStr ''hook failed'')) \<and>
   fst (execute_tool test_runtime (faulty_hook ''on_function_call_start'') time_tool time_call) =
     Inl (Exn ''RuntimeError'' ''hook failed'') \<and>
   fst (execute_tool test_runtime (faulty_hook ''on_function_call_error'') weather_tool broken_call) =
     Inl (Exn ''RuntimeError'' ''hook failed'')"
  by (simp add: run_defs test_defs)

section \<open>Properties of the turn\<close>

subsection \<open>The outbound message list\<close>

lemma prepare_messages_value:
  assumes "history = [] \<or> (\<exists>r c. subscript (hd history) ''role'' = Inr r \<and>
                                   subscript (last history) ''content'' = Inr c)"
  shows "prepare_messages ag message (Some history) =
           Inr ((if history \<noteq> [] \<and> subscript (hd history) ''role'' = Inr (PStr ''system'')
                 then [] else [system_message ag]) @
                history @
                (if history \<noteq> [] \<and> subscript (last history) ''content'' = Inr (PStr message)
                 then [] else [user_message message]))"
proof (cases history)
  case Nil
  then show ?thesis by (simp add: prepare_messages_def)
next
  case (Cons first rest)
  with assms obtain r c where r: "subscript first ''role'' = Inr r"
    and c: "subscript (last (first # rest)) ''content'' = Inr c" by auto
  show ?thesis
    unfolding Cons using r c by (simp add: prepare_messages_def Let_def)
qed

text \<open>
  Claim C8. For a history whose first entry has a \<open>role\<close> and whose last entry has a
  \<open>content\<close> (or an empty or absent history), \<open>_prepare_messages\<close> returns a system message
  unless the first entry's role is \<open>system\<close>, then the whole history in order, then the
  new user message unless the content of the last entry equals the new message.
\<close>

theorem prepare_messages_layout:
  assumes "history = [] \<or> (\<exists>r c. subscript (hd history) ''role'' = Inr r \<and>
                                   subscript (last history) ''content'' = Inr c)"
  shows "prepare_messages ag message (Some history) =
           Inr ((if history \<noteq> [] \<and> subscript (hd history) ''role'' = Inr (PStr ''system'')
                 then [] else [system_message ag]) @
                history @
                (if history \<noteq> [] \<and> subscript (last history) ''content'' = Inr (PStr message)
                 then [] else [user_message message])) \<and>
         prepare_messages ag message None = Inr [system_message ag, user_message message]"
  using prepare_messages_value [OF assms] by (simp add: prepare_messages_def)

theorem prepare_messages_layout_witness:
  "prepare_messages test_agent ''hello''
     (Some [PDict [(''role'', PStr ''system''), (''content'', PStr ''Be brief'')],
            PDict [(''role'', PStr ''user''), (''content'', PStr ''hello'')]]) =
     Inr [PDict [(''role'', PStr ''system''), (''content'', PStr ''Be brief'')],
          PDict [(''role'', PStr ''user''), (''content'', PStr ''hello'')]] \<and>
   prepare_messages test_agent ''hello''
     (Some [PDict [(''role'', PStr ''user''), (''content'', PStr ''hi'')]]) =
     Inr [system_message test_agent,
          PDict [(''role'', PStr ''user''), (''content'', PStr ''hi'')],
          user_message ''hello'']"
proof -
  let ?h1 = "[PDict [(''role'', PStr ''system''), (''content'', PStr ''Be brief'')],
              PDict [(''role'', PStr ''user''), (''content'', PStr ''hello'')]]"
  let ?h2 = "[PDict [(''role'', PStr ''user''), (''content'', PStr ''hi'')]]"
  have a: "?h1 = [] \<or> (\<exists>r c. subscript (hd ?h1) ''role'' = Inr r \<and>
                               subscript (last ?h1) ''content'' = Inr c)"
    by simp
  have b: "?h2 = [] \<or> (\<exists>r c. subscript (hd ?h2) ''role'' = Inr r \<and>
                               subscript (last ?h2) ''content'' = Inr c)"
    by simp
  from prepare_messages_layout [OF a, of test_agent "''hello''"]
       prepare_messages_layout [OF b, of test_agent "''hello''"]
  show ?thesis by simp
qed

subsection \<open>Malformed histories\<close>

lemma check_messages_malformed:
  assumes "\<not> list_all well_formed_entry msgs"
  shows "\<exists>v. check_messages msgs = Some v \<and> exn_class v = ''ValueError'' \<and> is_exception v"
  using assms
proof (induction msgs rule: check_messages.induct)
qed auto


lemma validate_history_malformed:
  assumes "\<not> list_all well_formed_entry msgs"
  shows "\<exists>v. validate_history (PList msgs) = Inl v \<and> exn_class v = ''ValueError'' \<and> is_exception v"
proof -
  from assms have "msgs \<noteq> []" by auto
  with check_messages_malformed [OF assms] show ?thesis
    by (auto simp: validate_history_def)
qed


text \<open>
  Claim C3, as amended. If a supplied history list has an entry that is not a dictionary, or
  that has no \<open>role\<close> or no \<open>content\<close>, validation raises a \<open>ValueError\<close> and
  \<open>send_message\<close> fails: the history store is unchanged, and the only recorded effect is the
  \<open>on_error\<close> hook, called with the text of the validation error, so no call of the model
  backend is made. The exception \<open>send_message\<close> raises is the validation error whenever the
  \<open>on_error\<close> hook returns.
\<close>

theorem malformed_history_rejected:
  assumes "\<not> list_all well_formed_entry msgs"
  shows "\<exists>v e st'.
           validate_history (PList msgs) = Inl v \<and> exn_class v = ''ValueError'' \<and>
           send_message n rt ag message (PList msgs) st = Some (Inl e, st') \<and>
           message_history st' = message_history st \<and>
           trace st' = trace st @
             [HookTriggered ''on_error'' (turn_payload rt ag [(''error'', PStr (exn_str v))] st)] \<and>
           (trigger_hook ag ''on_error''
              (turn_payload rt ag [(''error'', PStr (exn_str v))] st) = None \<longrightarrow> e = v)"
proof -
  from validate_history_malformed [OF assms] obtain v where
    v: "validate_history (PList msgs) = Inl v" "exn_class v = ''ValueError''" "is_exception v"
    by blast
  then have body: "send_message_try n rt ag message (PList msgs) st = Some (Inl v, st)"
    by (simp add: send_message_try_def)
  show ?thesis
  proof (cases "trigger_hook ag ''on_error'' (turn_payload rt ag [(''error'', PStr (exn_str v))] st)")
    case None
    with v body show ?thesis
      by (simp add: send_message_def trigger_st_def trigger_def)
  next
    case (Some e')
    with v body show ?thesis
      by (simp add: send_message_def trigger_st_def trigger_def)
  qed
qed

theorem malformed_history_rejected_witness:
  "validate_history (PList [PDict [(''role'', PStr ''user'')]]) =
     Inl (Exn ''ValueError'' (''History messages must have '' @ quote ''content'' @ '' field'')) \<and>
   map_option fst (send_message 1 test_runtime test_agent ''hello''
                     (PList [PDict [(''role'', PStr ''user'')]]) fresh_state) =
     Some (Inl (Exn ''ValueError'' (''History messages must have '' @ quote ''content'' @ '' field''))) \<and>
   map_option (message_history \<circ> snd)
     (send_message 1 test_runtime test_agent ''hello''
        (PList [PDict [(''role'', PStr ''user'')]]) fresh_state) = Some []"
proof -
  have h: "\<not> list_all well_formed_entry [PDict [(''role'', PStr ''user'')]]"
    by simp
  have v: "validate_history (PList [PDict [(''role'', PStr ''user'')]]) =
     Inl (Exn ''ValueError'' (''History messages must have '' @ quote ''content'' @ '' field''))"
    by (simp add: validate_history_def)
  have hook: "trigger_hook test_agent ''on_error'' p = None" for p
    by (simp add: test_agent_def)
  from malformed_history_rejected [OF h, of 1 test_runtime test_agent "''hello''" fresh_state]
  show ?thesis
    using v hook by (auto simp: fresh_state_def)
qed

text \<open>
  Claim C3 as it is written fails when the \<open>on_error\<close> hook itself raises: the exception
  that leaves \<open>send_message\<close> is then the hook's, not the validation error.
\<close>

theorem on_error_fault_replaces_validation_error:
  "validate_history (PList [PDict [(''role'', PStr ''user'')]]) =
     Inl (Exn ''ValueError'' (''History messages must have '' @ quote ''content'' @ '' field'')) \<and>
   map_option fst (send_message 1 test_runtime (faulty_hook ''on_error'') ''hello''
                     (PList [PDict [(''role'', PStr ''user'')]]) fresh_state) =
     Some (Inl (Exn ''RuntimeError'' ''hook failed''))"
  by (simp add: validate_history_def send_message_def send_message_try_def trigger_st_def
        trigger_def faulty_hook_def test_agent_def)

subsection \<open>A stop requested before tool dispatch\<close>

lemma clean_history_returns:
  assumes "list_all well_formed_entry h"
  shows "\<exists>c. clean_history h = Inr c"
  using assms
proof (induction h)
  case Nil
  then show ?case by simp
next
  case (Cons msg h)
  then obtain kvs r c where msg: "msg = PDict kvs" "map_of kvs ''role'' = Some r"
    "map_of kvs ''content'' = Some c"
    by (cases msg) auto
  from Cons obtain rest where rest: "clean_history h = Inr rest" by auto
  show ?case
    using msg rest by simp
qed

text \<open>
  One round of the loop, whichever it is: the model replies with tool calls, the stop
  handler finds no request after the model call and finds one after the dispatch, which
  has returned. The loop is left through \<open>_format_response\<close> at the second \<open>return\<close>, and
  the history store has grown by the assistant message only.
\<close>

lemma stop_round_state:
  assumes reply: "client_send_message ag msgs tools = Inr resp"
    and calls: "tool_calls resp \<noteq> []"
    and not_yet: "\<not> stop_requested rt (stop_checks st)"
    and stop: "stop_requested rt (Suc (stop_checks st))"
    and dispatched: "dispatch_outcome rt ag (tool_calls resp) = (Inr results, evs)"
    and st5: "st5 = st\<lparr>message_history := message_history st @ [assistant_message resp],
                       trace := trace st @ [BackendCalled msgs tools] @ evs,
                       stop_checks := Suc (Suc (stop_checks st))\<rparr>"
  shows "send_loop (Suc n) rt ag tools msgs st =
           (case format_response rt ag (Some resp) ''manual_stop'' st5 of
              Inl e \<Rightarrow> Some (Inl e, st5)
            | Inr r \<Rightarrow> Some (Inr (Return r), st5))"
proof -
  define st3 where "st3 = st\<lparr>trace := trace st @ [BackendCalled msgs tools],
                             stop_checks := Suc (stop_checks st)\<rparr>"
  have model_call: "run_with_stop_handler rt (call_backend ag msgs tools) st =
                      (Inr (resp, False), st3)"
    using reply not_yet
    by (simp add: run_with_stop_handler_def call_backend_def st3_def)
  define st4 where "st4 = add_to_history (assistant_message resp) st3"
  have checks4: "stop_checks st4 = Suc (stop_checks st)"
    by (simp add: st4_def st3_def add_to_history_def)
  have disp: "dispatch rt ag (tool_calls resp) st4 = (Inr results, st4\<lparr>trace := trace st4 @ evs\<rparr>)"
    using dispatched by (simp add: dispatch_def)
  have st5': "st5 = st4\<lparr>trace := trace st4 @ evs, stop_checks := Suc (Suc (stop_checks st))\<rparr>"
    by (simp add: st5 st4_def st3_def add_to_history_def)
  have tool_phase: "run_with_stop_handler rt (dispatch rt ag (tool_calls resp)) st4 =
                      (Inr (results, True), st5)"
    using disp stop checks4 by (simp add: run_with_stop_handler_def st5')
  show ?thesis
    using model_call tool_phase calls by (simp add: st4_def)
qed


text \<open>
  A reply without usage data: \<open>response.usage.model_dump()\<close> raises in that round.
\<close>

lemma stop_in_round_without_usage:
  assumes reply: "client_send_message ag msgs tools = Inr resp"
    and calls: "tool_calls resp \<noteq> []"
    and not_yet: "\<not> stop_requested rt (stop_checks st)"
    and stop: "stop_requested rt (Suc (stop_checks st))"
    and dispatched: "fst (dispatch_outcome rt ag (tool_calls resp)) = Inr results"
    and unreported: "usage resp = None"
    and stored: "list_all well_formed_entry (message_history st)"
  shows "\<exists>st'. send_loop (Suc n) rt ag tools msgs st =
                 Some (Inl (Exn ''AttributeError'' ''NoneType object has no attribute model_dump''),
                       st')"
proof -
  obtain evs where d: "dispatch_outcome rt ag (tool_calls resp) = (Inr results, evs)"
    using dispatched by (cases "dispatch_outcome rt ag (tool_calls resp)") simp
  define st5 where "st5 = st\<lparr>message_history := message_history st @ [assistant_message resp],
                       trace := trace st @ [BackendCalled msgs tools] @ evs,
                       stop_checks := Suc (Suc (stop_checks st))\<rparr>"
  have "list_all well_formed_entry (message_history st5)"
    using stored by (simp add: st5_def assistant_message_def)
  then obtain clean where clean: "clean_history (message_history st5) = Inr clean"
    using clean_history_returns by blast
  have fmt: "format_response rt ag (Some resp) ''manual_stop'' st5 =
               Inl (Exn ''AttributeError'' ''NoneType object has no attribute model_dump'')"
    using clean unreported
    by (simp add: format_response_def output_and_usage_def get_complete_history_def)
  show ?thesis
    using stop_round_state [OF reply calls not_yet stop d st5_def, where n = n] fmt
    by simp
qed





subsection \<open>A complete turn\<close>

text \<open>
  The two tools of the test agent, dispatched concurrently: the turn takes two rounds and
  the tool messages are in the order of the requests. The history store holds the user
  message, the assistant messages and the tool messages; the system message is part of
  the outbound list only.
\<close>

lemma two_tools_dispatch:
  "dispatch test_runtime test_agent [time_call, weather_call] st =
     (Inr [Inr (tool_result time_call (PStr ''12:00:00'')),
           Inr (tool_result weather_call (PStr ''Sunny in Tokyo''))],
      st\<lparr>trace := trace st @ snd (execute_tools_concurrent test_runtime test_agent [time_call, weather_call])\<rparr>)"
proof -
  have "fst (execute_tools_concurrent test_runtime test_agent [time_call, weather_call]) =
          Inr [Inr (tool_result time_call (PStr ''12:00:00'')),
               Inr (tool_result weather_call (PStr ''Sunny in Tokyo''))]"
    by (simp add: concurrent_outcome run_defs test_defs)
  then show ?thesis
    by (cases "execute_tools_concurrent test_runtime test_agent [time_call, weather_call]")
       (simp add: dispatch_def dispatch_outcome_def test_agent_fields)
qed

lemma complete_turn:
  "\<exists>r st'. send_message 2 test_runtime test_agent ''What time is it?'' PNone fresh_state =
             Some (Inr r, st') \<and>
           stop_reason r = ''completed'' \<and>
           final_output r = PStr ''It is noon and sunny.'' \<and>
           history_messages r =
             [user_message ''What time is it?'',
              PDict [(''role'', PStr ''assistant''), (''content'', PNone),
                     (''tool_calls'', PList [tool_call_entry time_call, tool_call_entry weather_call])],
              PDict [(''role'', PStr ''tool''), (''tool_call_id'', PStr (call_id time_call)),
                     (''content'', PStr ''12:00:00'')],
              PDict [(''role'', PStr ''tool''), (''tool_call_id'', PStr (call_id weather_call)),
                     (''content'', PStr ''Sunny in Tokyo'')],
              PDict [(''role'', PStr ''assistant''), (''content'', PStr ''It is noon and sunny.'')]] \<and>
           history_simplified r =
             [user_message ''What time is it?'',
              PDict [(''role'', PStr ''assistant''), (''content'', PStr ''It is noon and sunny.'')]]"
proof -
  have two: "(2::nat) = Suc (Suc 0)" by simp
  show ?thesis
    unfolding two
    by (simp add: send_message_def send_message_try_def validate_history_def add_to_history_def
        trigger_st_def trigger_def turn_payload_def prepare_messages_def user_message_def
        system_message_def tool_schemas_def run_with_stop_handler_def call_backend_def
        assistant_message_def format_response_def output_and_usage_def get_complete_history_def
        response_value_def two_tools_dispatch tool_result_def Let_def
        test_agent_fields test_runtime_fields stub_backend_def fresh_state_def)
qed

section \<open>Properties of the token counts\<close>

text \<open>
  Claim C9 fails on the code: \<open>len(message) / 4\<close> is a float, never an \<open>int\<close>, in
  \<open>get_simple_token_count\<close> and in the fallback of \<open>get_accurate_token_count\<close>. For
  \<open>"abc"\<close> both return 0.75.
\<close>

theorem token_count_fallback_is_float:
  "\<not> is_int (get_simple_token_count message) \<and>
   get_simple_token_count ''abc'' = PFloat (3 / 4) \<and>
   get_accurate_token_count no_tokenizer ''abc'' mdl = Inr (PFloat (3 / 4))"
  by (simp add: get_simple_token_count_def get_accurate_token_count_def no_tokenizer_def)

end
